theory Spec2Isabelle
  imports Main
begin

section \<open>The OVHcloud DNS provider: remote access client and handler\<close>

text \<open>
  A shallow embedding of \<^verbatim>\<open>pkg/controller/provider/ovhcloud/access.go\<close> and of the
  handler of the same package (\<^verbatim>\<open>getZones\<close>, \<^verbatim>\<open>getZoneState\<close>,
  \<^verbatim>\<open>executeRequests\<close>). Go's \<^verbatim>\<open>error\<close> results are values: a function
  returning only \<^verbatim>\<open>error\<close> returns an \<open>error option\<close> (\<open>None\<close> is
  \<^verbatim>\<open>nil\<close>), a function returning a value and an error returns a sum (\<open>Inl\<close> the
  error). The remote REST service is a parameter: an arbitrary deterministic machine over
  a state type \<open>'s\<close>, so every theorem holds for every remote behaviour, failures
  included. Every remote call is written to a log together with its outcome.

  The \<^verbatim>\<open>int64\<close> fields (record id, TTL) are only stored, compared and passed on, never
  computed with, so they are integers here. The metrics counters
  (\<^verbatim>\<open>AddZoneRequests\<close>) do not influence any result and are left out; the rate
  limiter's \<^verbatim>\<open>Accept\<close> is counted.
\<close>

subsection \<open>Wire entities\<close>

record recordInfo =
  FieldType :: string
  Id_ri :: int
  SubDomain :: string
  Target :: string
  Ttl :: int
  Zone :: string

record zoneInfo =
  DnssecSupported :: bool
  HasDnsAnycast :: bool
  LastUpdate :: string
  Name :: string
  NameServers :: "string list"

text \<open>
  The endpoints the client is called on, by HTTP method and path; the path and query
  parameters are kept as components instead of a formatted string.

  The path of a single record is formatted in two ways in \<^verbatim>\<open>access.go\<close>. For an
  update and a delete it is \<^verbatim>\<open>"/domain/zone/%s/record/%d"\<close>. For the fetch of a listed
  record in \<^verbatim>\<open>getRecordSets\<close> it is \<^verbatim>\<open>"/domain/zone/%s/record/%i"\<close>, and
  \<^verbatim>\<open>%i\<close> is not a formatting verb of Go: for the id 5 the path is
  \<^verbatim>\<open>/domain/zone/{zone}/record/%!i(int64=5)\<close>. \<open>GET_record_malformed zone id\<close>
  is the call on that path.
\<close>

datatype request =
    GET_zones
  | GET_zone string
  | GET_records string string string
  | GET_record_malformed string int
  | POST_record string recordInfo
  | PUT_record string int recordInfo
  | DELETE_record string int
  | POST_refresh string

text \<open>
  \<open>GET_records zone fieldType subDomain\<close> is
  \<^verbatim>\<open>GET /domain/zone/{zone}/record?fieldType=&subDomain=\<close>.
\<close>

datatype error =
    ErrorCalling request string
  | CouldNotFindRecord string string string
  | ListingZonesFailed error
  | ListingZoneRecordsFailed string error
  | ListingZoneStateFailed string string
  | CreateFailed string error
  | UpdateFailed string error
  | DeleteFailed string error
  | RefreshFailed string error

text \<open>
  The transport handle \<^verbatim>\<open>ovh.Client\<close>: one operation per endpoint that reaches the
  remote service, each taking the remote state and returning either the transport error
  text or the decoded body, and the next remote state.
\<close>

record 's ovh_Client =
  Get_zones :: "'s \<Rightarrow> (string + string list) \<times> 's"
  Get_zone :: "'s \<Rightarrow> string \<Rightarrow> (string + zoneInfo) \<times> 's"
  Get_records :: "'s \<Rightarrow> string \<Rightarrow> string \<Rightarrow> string \<Rightarrow> (string + int list) \<times> 's"
  Post_record :: "'s \<Rightarrow> string \<Rightarrow> recordInfo \<Rightarrow> (string + unit) \<times> 's"
  Put_record :: "'s \<Rightarrow> string \<Rightarrow> int \<Rightarrow> recordInfo \<Rightarrow> (string + unit) \<times> 's"
  Delete_record :: "'s \<Rightarrow> string \<Rightarrow> int \<Rightarrow> (string + unit) \<times> 's"
  Post_refresh :: "'s \<Rightarrow> string \<Rightarrow> (string + unit) \<times> 's"

text \<open>
  The world a call runs in: the remote state, the log of remote calls issued so far
  (oldest first, each with \<open>True\<close> when it succeeded), and the number of rate-limiter
  tokens acquired.
\<close>

record 's world =
  remote :: 's
  calls :: "(request \<times> bool) list"
  accepts :: nat

definition Accept :: "'s world \<Rightarrow> 's world" where
  "Accept w = w\<lparr>accepts := Suc (accepts w)\<rparr>"

definition logged :: "request \<Rightarrow> (string + 'a) \<times> 's \<Rightarrow> 's world \<Rightarrow> (string + 'a) \<times> 's world" where
  "logged rq out w =
     (fst out, w\<lparr>remote := snd out, calls := calls w @ [(rq, \<not> isl (fst out))]\<rparr>)"

text \<open>
  A call on the malformed record path never reaches the remote service: \<^verbatim>\<open>%!i\<close> is
  not a valid URL escape, so the client fails to build the request and returns that
  error; the remote state is as before. The call is written to the log as a failed call.
\<close>

definition invalidURLEscape :: string where
  "invalidURLEscape = ''invalid URL escape %!i''"

definition refused :: "'s \<Rightarrow> (string + 'a) \<times> 's" where
  "refused s = (Inl invalidURLEscape, s)"

subsection \<open>access.go\<close>

text \<open>
  Where the source does not type-check, the model reads it as follows: \<^verbatim>\<open>range zs\<close>
  in \<^verbatim>\<open>getZones\<close> ranges over the listed zone names; the functions declared with a
  first parameter \<^verbatim>\<open>a *access\<close> are the methods the callers invoke; the response
  arguments of \<^verbatim>\<open>Put\<close> and \<^verbatim>\<open>Delete\<close> are ignored.
\<close>

fun getZoneInfos :: "'s ovh_Client \<Rightarrow> string list \<Rightarrow> zoneInfo list \<Rightarrow> 's world
    \<Rightarrow> (error + zoneInfo list) \<times> 's world" where
  "getZoneInfos a [] zones w = (Inr zones, w)"
| "getZoneInfos a (z # zs) zones w =
     (case logged (GET_zone z) (Get_zone a (remote w) z) (Accept w) of
        (Inl err, w') \<Rightarrow> (Inl (ErrorCalling (GET_zone z) err), w')
      | (Inr zi, w') \<Rightarrow> getZoneInfos a zs (zones @ [zi]) w')"

definition access_getZones :: "'s ovh_Client \<Rightarrow> 's world \<Rightarrow> (error + zoneInfo list) \<times> 's world" where
  "access_getZones a w =
     (case logged GET_zones (Get_zones a (remote w)) (Accept w) of
        (Inl err, w') \<Rightarrow> (Inl (ErrorCalling GET_zones err), w')
      | (Inr zs, w') \<Rightarrow> getZoneInfos a zs [] w')"

definition createRecordSet :: "'s ovh_Client \<Rightarrow> string \<Rightarrow> string \<Rightarrow> string \<Rightarrow> string \<Rightarrow> int
    \<Rightarrow> 's world \<Rightarrow> error option \<times> 's world" where
  "createRecordSet a zone name val fieldType ttl w =
     (let r = \<lparr>FieldType = fieldType, Id_ri = 0, SubDomain = name, Target = val,
                Ttl = ttl, Zone = ''''\<rparr>
      in case logged (POST_record zone r) (Post_record a (remote w) zone r) (Accept w) of
           (Inl err, w') \<Rightarrow> (Some (ErrorCalling (POST_record zone r) err), w')
         | (Inr _, w') \<Rightarrow> (None, w'))"

text \<open>
  The loop of \<^verbatim>\<open>getRecordSets\<close> over the listed ids. Each iteration takes a
  rate-limiter token and calls \<^verbatim>\<open>a.client.Get\<close> on the path formatted with
  \<^verbatim>\<open>%i\<close>, which the client refuses; the branch that appends the fetched record is the
  source's, and is never taken.
\<close>

fun fetchRecords :: "'s ovh_Client \<Rightarrow> string \<Rightarrow> int list \<Rightarrow> recordInfo list \<Rightarrow> 's world
    \<Rightarrow> (error + recordInfo list) \<times> 's world" where
  "fetchRecords a zone [] records w = (Inr records, w)"
| "fetchRecords a zone (r # rs) records w =
     (case logged (GET_record_malformed zone r) (refused (remote w)) (Accept w) of
        (Inl err, w') \<Rightarrow> (Inl (ErrorCalling (GET_record_malformed zone r) err), w')
      | (Inr ri, w') \<Rightarrow> fetchRecords a zone rs (records @ [ri]) w')"

definition getRecordSets :: "'s ovh_Client \<Rightarrow> string \<Rightarrow> string \<Rightarrow> string \<Rightarrow> 's world
    \<Rightarrow> (error + recordInfo list) \<times> 's world" where
  "getRecordSets a zone subDomain fieldType w =
     (case logged (GET_records zone fieldType subDomain)
             (Get_records a (remote w) zone fieldType subDomain) (Accept w) of
        (Inl err, w') \<Rightarrow> (Inl (ErrorCalling (GET_records zone fieldType subDomain) err), w')
      | (Inr rs, w') \<Rightarrow> fetchRecords a zone rs [] w')"

text \<open>The loop of \<^verbatim>\<open>getRecordSet\<close>: the first record whose target is the value, or nil.\<close>

fun firstWithTarget :: "string \<Rightarrow> recordInfo list \<Rightarrow> recordInfo option" where
  "firstWithTarget val [] = None"
| "firstWithTarget val (r # records) =
     (if Target r = val then Some r else firstWithTarget val records)"

definition getRecordSet :: "'s ovh_Client \<Rightarrow> string \<Rightarrow> string \<Rightarrow> string \<Rightarrow> string \<Rightarrow> 's world
    \<Rightarrow> (error + recordInfo option) \<times> 's world" where
  "getRecordSet a zone subDomain val fieldType w =
     (case getRecordSets a zone subDomain fieldType w of
        (Inl err, w') \<Rightarrow> (Inl err, w')
      | (Inr records, w') \<Rightarrow> (Inr (firstWithTarget val records), w'))"

text \<open>
  \<^verbatim>\<open>updateRecordSet\<close> and \<^verbatim>\<open>deleteRecordSet\<close> call
  \<^verbatim>\<open>a.getRecordSet(zone, subDomain, fieldType)\<close>, three arguments for the four
  parameters \<^verbatim>\<open>(zone, subDomain, value, fieldType)\<close>. The arguments are bound to the
  parameters of the same name, and the remaining parameter \<^verbatim>\<open>value\<close> to the caller's
  own \<^verbatim>\<open>value\<close>. When the lookup finds no record, \<^verbatim>\<open>updateRecordSet\<close> returns
  the error built by \<^verbatim>\<open>fmt.Errorf("Could not find record ...")\<close>, and
  \<^verbatim>\<open>deleteRecordSet\<close> returns nil.
\<close>

definition updateRecordSet :: "'s ovh_Client \<Rightarrow> string \<Rightarrow> string \<Rightarrow> string \<Rightarrow> string \<Rightarrow> int
    \<Rightarrow> 's world \<Rightarrow> error option \<times> 's world" where
  "updateRecordSet a zone subDomain val fieldType ttl w =
     (case getRecordSet a zone subDomain val fieldType w of
        (Inl err, w') \<Rightarrow> (Some err, w')
      | (Inr None, w') \<Rightarrow> (Some (CouldNotFindRecord zone subDomain fieldType), w')
      | (Inr (Some record), w') \<Rightarrow>
          (let ri = \<lparr>FieldType = '''', Id_ri = 0, SubDomain = '''', Target = '''',
                     Ttl = ttl, Zone = ''''\<rparr>;
               rq = PUT_record zone (Id_ri record) ri
           in case logged rq (Put_record a (remote w') zone (Id_ri record) ri) (Accept w') of
                (Inl err, w'') \<Rightarrow> (Some (ErrorCalling rq err), w'')
              | (Inr _, w'') \<Rightarrow> (None, w'')))"

definition deleteRecordSet :: "'s ovh_Client \<Rightarrow> string \<Rightarrow> string \<Rightarrow> string \<Rightarrow> string
    \<Rightarrow> 's world \<Rightarrow> error option \<times> 's world" where
  "deleteRecordSet a zone subDomain val fieldType w =
     (case getRecordSet a zone subDomain val fieldType w of
        (Inl err, w') \<Rightarrow> (Some err, w')
      | (Inr None, w') \<Rightarrow> (None, w')
      | (Inr (Some record), w') \<Rightarrow>
          (let rq = DELETE_record zone (Id_ri record)
           in case logged rq (Delete_record a (remote w') zone (Id_ri record)) (Accept w') of
                (Inl err, w'') \<Rightarrow> (Some (ErrorCalling rq err), w'')
              | (Inr _, w'') \<Rightarrow> (None, w'')))"

definition refreshZone :: "'s ovh_Client \<Rightarrow> string \<Rightarrow> 's world \<Rightarrow> error option \<times> 's world" where
  "refreshZone a zone w =
     (case logged (POST_refresh zone) (Post_refresh a (remote w) zone) (Accept w) of
        (Inl err, w') \<Rightarrow> (Some (ErrorCalling (POST_refresh zone) err), w')
      | (Inr _, w') \<Rightarrow> (None, w'))"

subsection \<open>The handler: data of the dns and provider packages\<close>

text \<open>
  Modelled from the spec: the types \<^verbatim>\<open>dns.Record\<close>, \<^verbatim>\<open>dns.RecordSet\<close>,
  \<^verbatim>\<open>dns.DNSSet\<close> and \<^verbatim>\<open>dns.DNSSets\<close> are declared in the dns package, which is
  not part of these sources. A record is "a single value (target)", a record set is
  "(name, type, TTL, set of Records)", and the collection is a "mapping from normalized
  record name to the set of RecordSets at that name (one per type)". The fields are the
  ones the handler reads and writes (\<^verbatim>\<open>Value\<close>, \<^verbatim>\<open>Type\<close>, \<^verbatim>\<open>TTL\<close>,
  \<^verbatim>\<open>Records\<close>).
\<close>

record Record =
  Value :: string

record RecordSet =
  Type :: string
  TTL :: int
  Records :: "Record list"

record DNSSet =
  SetName :: string
  Sets :: "string \<rightharpoonup> RecordSet"

type_synonym DNSSets = "string \<rightharpoonup> DNSSet"

text \<open>
  Modelled from the spec: the record set the zone enumeration hands to the callback of
  \<^verbatim>\<open>getZoneState\<close> (\<^verbatim>\<open>recordsets.RecordSet\<close>, declared outside these sources),
  with the fields the callback reads: name, type, TTL and the values, here prefixed
  \<open>rs_\<close>.
\<close>

record recordsets_RecordSet =
  rs_Name :: string
  rs_Type :: string
  rs_TTL :: int
  rs_Records :: "string list"

text \<open>
  Modelled from the spec: the names of the record types that are synchronized ("only types
  A, CNAME, TXT"), constants of the dns package.
\<close>

definition RS_A :: string where "RS_A = ''A''"
definition RS_CNAME :: string where "RS_CNAME = ''CNAME''"
definition RS_TXT :: string where "RS_TXT = ''TXT''"

text \<open>
  Modelled from the spec: \<^verbatim>\<open>provider.DNSHostedZone\<close> and its constructor
  \<^verbatim>\<open>provider.NewDNSHostedZone\<close> belong to the provider package, which is not part of
  these sources. A zone is an "identifier, display domain, set of forwarded/delegated
  sub-names, boolean private flag"; the constructor stores its six arguments in the order
  \<^verbatim>\<open>getZones\<close> passes them (provider type, id, domain, key, forwarded names, private).
  \<open>Id_hz\<close> and \<open>Domain_hz\<close> are what \<^verbatim>\<open>zone.Id()\<close> and
  \<^verbatim>\<open>zone.Domain()\<close> return.
\<close>

record DNSHostedZone =
  ProviderType_hz :: string
  Id_hz :: string
  Domain_hz :: string
  Key_hz :: string
  ForwardedDomains :: "string list"
  IsPrivate :: bool

definition NewDNSHostedZone :: "string \<Rightarrow> string \<Rightarrow> string \<Rightarrow> string \<Rightarrow> string list \<Rightarrow> bool
    \<Rightarrow> DNSHostedZone" where
  "NewDNSHostedZone ptype zid domain key forwarded isPrivate =
     \<lparr>ProviderType_hz = ptype, Id_hz = zid, Domain_hz = domain, Key_hz = key,
      ForwardedDomains = forwarded, IsPrivate = isPrivate\<rparr>"

text \<open>
  Modelled from the spec: the action tag of a change request, whose declaration
  (\<^verbatim>\<open>provider.R_CREATE\<close>, \<^verbatim>\<open>provider.R_UPDATE\<close>, \<^verbatim>\<open>provider.R_DELETE\<close>) is in
  the provider package; a change request is "an action tag (create/update/delete) plus the
  RecordSet it targets". The targeted set is the field \<open>dnsset\<close>, of the type
  \<^verbatim>\<open>dns.MapToProvider\<close> takes.
\<close>

datatype Action = R_CREATE | R_UPDATE | R_DELETE

record 'd ChangeRequest =
  Action :: Action
  ReqType :: string
  dnsset :: 'd

text \<open>
  The functions of the dns package the handler calls, whose bodies are not part of these
  sources, are parameters: \<^verbatim>\<open>dns.NormalizeHostname\<close>, \<^verbatim>\<open>dns.AlignHostname\<close>
  and \<^verbatim>\<open>dns.MapToProvider\<close> (record type, set, zone domain to the provider's name
  and record set).
\<close>

record 'd dns =
  NormalizeHostname :: "string \<Rightarrow> string"
  AlignHostname :: "string \<Rightarrow> string"
  MapToProvider :: "string \<Rightarrow> 'd \<Rightarrow> string \<Rightarrow> string \<times> RecordSet"

text \<open>
  The handler: its access object, the dry-run flag of its configuration
  (\<^verbatim>\<open>h.config.DryRun\<close>) and its provider type code. What the remote enumeration behind
  \<^verbatim>\<open>h.client.ForEachRecordSet\<close> delivers is a parameter too, since that method is
  defined nowhere in these sources: \<open>Enumerate\<close> gives, for a remote state and a zone
  id, the record sets handed to the callback, in order, and the error the enumeration
  ends with, if any.
\<close>

record 's Handler =
  access :: "'s ovh_Client"
  DryRun :: bool
  ProviderType :: string
  Enumerate :: "'s \<Rightarrow> string \<Rightarrow> (recordsets_RecordSet list \<times> string option) \<times> 's"

subsection \<open>getZones\<close>

text \<open>
  The inner loop of \<^verbatim>\<open>getZones\<close>: the name of a record is
  \<^verbatim>\<open>fmt.Sprintf("%s.%s", r.Subdomain, r.Zone)\<close>, with the field \<^verbatim>\<open>SubDomain\<close> of
  \<^verbatim>\<open>recordInfo\<close>. The NS records of a zone are listed with
  \<^verbatim>\<open>getRecordSets(z, "", "NS")\<close>, the zone being named by \<^verbatim>\<open>z.Name\<close>.
\<close>

definition recordName :: "recordInfo \<Rightarrow> string" where
  "recordName r = SubDomain r @ ''.'' @ Zone r"




subsection \<open>getZoneState\<close>

text \<open>
  Modelled from the spec: \<^verbatim>\<open>dns.NewRecordSet\<close>, \<^verbatim>\<open>RecordSet.Add\<close> and
  \<^verbatim>\<open>DNSSets.AddRecordSetFromProvider\<close> belong to the dns package, which is not part of
  these sources. A record set is "(name, type, TTL, set of Records)"; the collection is a
  "mapping from normalized record name to the set of RecordSets at that name (one per
  type), built by repeated add record set merges", so adding a record set stores it under
  its type at the normalized name.
\<close>

definition NewRecordSet :: "string \<Rightarrow> int \<Rightarrow> Record list \<Rightarrow> RecordSet" where
  "NewRecordSet rtype ttl records = \<lparr>Type = rtype, TTL = ttl, Records = records\<rparr>"

definition RecordSet_Add :: "RecordSet \<Rightarrow> Record \<Rightarrow> RecordSet" where
  "RecordSet_Add rs r = rs\<lparr>Records := Records rs @ [r]\<rparr>"

definition AddRecordSetFromProvider :: "'d dns \<Rightarrow> DNSSets \<Rightarrow> string \<Rightarrow> RecordSet \<Rightarrow> DNSSets" where
  "AddRecordSetFromProvider d dnssets dnsName rs =
     (let name = NormalizeHostname d dnsName;
          dnsset = (case dnssets name of
                      None \<Rightarrow> \<lparr>SetName = name, Sets = Map.empty\<rparr>
                    | Some ds \<Rightarrow> ds)
      in dnssets(name \<mapsto> dnsset\<lparr>Sets := (Sets dnsset)(Type rs \<mapsto> rs)\<rparr>))"

text \<open>The loop over \<^verbatim>\<open>recordSet.Records\<close> inside the callback.\<close>

fun addValues :: "'d dns \<Rightarrow> string \<Rightarrow> string list \<Rightarrow> RecordSet \<Rightarrow> RecordSet" where
  "addValues d rtype [] rs = rs"
| "addValues d rtype (record # records) rs =
     (let val = (if rtype = RS_CNAME then NormalizeHostname d record else record)
      in addValues d rtype records (RecordSet_Add rs \<lparr>Value = val\<rparr>))"

text \<open>
  The callback \<^verbatim>\<open>recordSetHandler\<close>: it updates the captured \<^verbatim>\<open>dnssets\<close> and
  always returns nil, so it is a function on the collection. The \<^verbatim>\<open>switch\<close> has the
  one case \<^verbatim>\<open>dns.RS_A, dns.RS_CNAME, dns.RS_TXT\<close> and no default.
\<close>

definition recordSetHandler :: "'d dns \<Rightarrow> recordsets_RecordSet \<Rightarrow> DNSSets \<Rightarrow> DNSSets" where
  "recordSetHandler d recordSet dnssets =
     (if rs_Type recordSet = RS_A \<or> rs_Type recordSet = RS_CNAME \<or> rs_Type recordSet = RS_TXT
      then (let rs = NewRecordSet (rs_Type recordSet) (rs_TTL recordSet) [];
                rs' = addValues d (rs_Type recordSet) (rs_Records recordSet) rs
            in AddRecordSetFromProvider d dnssets (rs_Name recordSet) rs')
      else dnssets)"

text \<open>
  Modelled from the spec: \<^verbatim>\<open>ForEachRecordSet\<close> is called by
  \<^verbatim>\<open>getZoneState\<close> and defined nowhere in these sources. It calls the callback on
  every record set the enumeration delivers, in order ("for each fetched record ...
  merges it into the DNSSet collection").
\<close>

fun ForEachRecordSet :: "(recordsets_RecordSet \<Rightarrow> DNSSets \<Rightarrow> DNSSets) \<Rightarrow> recordsets_RecordSet list
    \<Rightarrow> DNSSets \<Rightarrow> DNSSets" where
  "ForEachRecordSet handler [] dnssets = dnssets"
| "ForEachRecordSet handler (recordSet # rest) dnssets =
     ForEachRecordSet handler rest (handler recordSet dnssets)"

text \<open>\<^verbatim>\<open>provider.NewDNSZoneState(dnssets)\<close> wraps the collection; the state is the collection.\<close>

definition getZoneState :: "'s Handler \<Rightarrow> 'd dns \<Rightarrow> DNSHostedZone \<Rightarrow> 's world
    \<Rightarrow> (error + DNSSets) \<times> 's world" where
  "getZoneState h d zone w =
     (let w1 = Accept w
      in case Enumerate h (remote w1) (Id_hz zone) of
           ((sets, err), s') \<Rightarrow>
             (let dnssets = ForEachRecordSet (recordSetHandler d) sets Map.empty;
                  w2 = w1\<lparr>remote := s'\<rparr>
              in case err of
                   Some e \<Rightarrow> (Inl (ListingZoneStateFailed (Id_hz zone) e), w2)
                 | None \<Rightarrow> (Inr dnssets, w2)))"

subsection \<open>executeRequests\<close>

text \<open>
  How a loop body leaves: by a \<^verbatim>\<open>return\<close> of the function (with the error returned,
  \<open>None\<close> for nil), or by falling through to the statements after the loop, with the
  value of the local \<^verbatim>\<open>updated\<close>.
\<close>

datatype flow = Return "error option" | Fallthrough bool

text \<open>
  The loop over \<^verbatim>\<open>rset.Records\<close>: \<^verbatim>\<open>updated = true\<close>, a rate-limiter token, then the
  call chosen by the action; an error returns from \<^verbatim>\<open>executeRequests\<close> with the
  wrapped error (\<^verbatim>\<open>return nil, fmt.Errorf(...)\<close>). The source switches on
  \<^verbatim>\<open>r.Action\<close>, where \<^verbatim>\<open>r\<close> is the loop variable of both loops; a record has no
  action, so it is the action of the request.
\<close>

fun recordsLoop :: "'s ovh_Client \<Rightarrow> Action \<Rightarrow> string \<Rightarrow> string \<Rightarrow> RecordSet \<Rightarrow> Record list
    \<Rightarrow> bool \<Rightarrow> 's world \<Rightarrow> flow \<times> 's world" where
  "recordsLoop a act zid name rset [] updated w = (Fallthrough updated, w)"
| "recordsLoop a act zid name rset (r # rs) updated w =
     (case act of
        R_CREATE \<Rightarrow>
          (case createRecordSet a zid name (Value r) (Type rset) (TTL rset) (Accept w) of
             (Some err, w') \<Rightarrow> (Return (Some (CreateFailed zid err)), w')
           | (None, w') \<Rightarrow> recordsLoop a act zid name rset rs True w')
      | R_UPDATE \<Rightarrow>
          (case updateRecordSet a zid name (Value r) (Type rset) (TTL rset) (Accept w) of
             (Some err, w') \<Rightarrow> (Return (Some (UpdateFailed zid err)), w')
           | (None, w') \<Rightarrow> recordsLoop a act zid name rset rs True w')
      | R_DELETE \<Rightarrow>
          (case deleteRecordSet a zid name (Value r) (Type rset) (Accept w) of
             (Some err, w') \<Rightarrow> (Return (Some (DeleteFailed zid err)), w')
           | (None, w') \<Rightarrow> recordsLoop a act zid name rset rs True w'))"

text \<open>
  The loop over \<^verbatim>\<open>reqs\<close>. The source maps with
  \<^verbatim>\<open>dns.MapToProvider(req.Type, dnsset, this.zone.Domain())\<close>: the request of the
  iteration, the set it targets and the zone passed to \<^verbatim>\<open>executeRequests\<close>. A request
  whose mapped record set has no records reaches the bare \<^verbatim>\<open>return\<close>, which leaves
  \<^verbatim>\<open>executeRequests\<close> with no error.
\<close>

fun requestsLoop :: "'s Handler \<Rightarrow> 'd dns \<Rightarrow> DNSHostedZone \<Rightarrow> 'd ChangeRequest list \<Rightarrow> bool
    \<Rightarrow> 's world \<Rightarrow> flow \<times> 's world" where
  "requestsLoop h d zone [] updated w = (Fallthrough updated, w)"
| "requestsLoop h d zone (req # reqs) updated w =
     (case MapToProvider d (ReqType req) (dnsset req) (Domain_hz zone) of
        (name0, rset) \<Rightarrow>
          (let name = AlignHostname d name0
           in if length (Records rset) = 0 then (Return None, w)
              else (case recordsLoop (access h) (Action req) (Id_hz zone) name rset
                           (Records rset) updated w of
                      (Return e, w') \<Rightarrow> (Return e, w')
                    | (Fallthrough updated', w') \<Rightarrow> requestsLoop h d zone reqs updated' w')))"

definition executeRequests :: "'s Handler \<Rightarrow> 'd dns \<Rightarrow> DNSHostedZone \<Rightarrow> DNSSets
    \<Rightarrow> 'd ChangeRequest list \<Rightarrow> 's world \<Rightarrow> error option \<times> 's world" where
  "executeRequests h d zone state reqs w =
     (if DryRun h then (None, w)
      else (case requestsLoop h d zone reqs False w of
              (Return e, w') \<Rightarrow> (e, w')
            | (Fallthrough updated, w') \<Rightarrow>
                (if updated
                 then (case refreshZone (access h) (Id_hz zone) (Accept w') of
                         (Some err, w'') \<Rightarrow> (Some (RefreshFailed (Id_hz zone) err), w'')
                       | (None, w'') \<Rightarrow> (None, w''))
                 else (None, w'))))"

subsection \<open>Observing the log\<close>

text \<open>
  The calls issued between two worlds, the kinds of request, and the shape of a log
  that stops at its first failure: every call but the last succeeded, and all of them
  when the function reports no error.
\<close>

definition issued :: "'s world \<Rightarrow> 's world \<Rightarrow> (request \<times> bool) list" where
  "issued w w' = drop (length (calls w)) (calls w')"

fun isRead :: "request \<Rightarrow> bool" where
  "isRead GET_zones = True"
| "isRead (GET_zone z) = True"
| "isRead (GET_records z f s) = True"
| "isRead (GET_record_malformed z i) = True"
| "isRead rq = False"

fun isDelete :: "request \<Rightarrow> bool" where
  "isDelete (DELETE_record z i) = True"
| "isDelete rq = False"


fun isRefresh :: "request \<Rightarrow> bool" where
  "isRefresh (POST_refresh z) = True"
| "isRefresh rq = False"

definition failfast :: "bool \<Rightarrow> (request \<times> bool) list \<Rightarrow> bool" where
  "failfast ok new \<longleftrightarrow>
     list_all snd (butlast new) \<and> (if ok then list_all snd new else True)"

fun flow_ok :: "flow \<Rightarrow> bool" where
  "flow_ok (Return (Some e)) = False"
| "flow_ok (Return None) = True"
| "flow_ok (Fallthrough updated) = True"

text \<open>
  The log of one per-record operation (\<^verbatim>\<open>createRecordSet\<close>,
  \<^verbatim>\<open>updateRecordSet\<close>, \<^verbatim>\<open>deleteRecordSet\<close>): at least one call, no refresh, and
  it stops at the first failure.
\<close>

definition opLog :: "bool \<Rightarrow> (request \<times> bool) list \<Rightarrow> bool" where
  "opLog ok new \<longleftrightarrow>
     new \<noteq> [] \<and> list_all (\<lambda>c. \<not> isRefresh (fst c)) new \<and> failfast ok new"

text \<open>One iteration of the loop over the records, whatever the action.\<close>

definition dispatch :: "'s ovh_Client \<Rightarrow> Action \<Rightarrow> string \<Rightarrow> string \<Rightarrow> RecordSet \<Rightarrow> Record
    \<Rightarrow> 's world \<Rightarrow> error option \<times> 's world" where
  "dispatch a act zid name rset r w =
     (case act of
        R_CREATE \<Rightarrow> createRecordSet a zid name (Value r) (Type rset) (TTL rset) w
      | R_UPDATE \<Rightarrow> updateRecordSet a zid name (Value r) (Type rset) (TTL rset) w
      | R_DELETE \<Rightarrow> deleteRecordSet a zid name (Value r) (Type rset) w)"

text \<open>The error \<^verbatim>\<open>executeRequests\<close> returns when the refresh call itself fails.\<close>

fun refreshError :: "error \<Rightarrow> bool" where
  "refreshError (RefreshFailed z e) = True"
| "refreshError e = False"

text \<open>
  The record set of a type at a name in the collection
  (\<^verbatim>\<open>dnssets[name].Sets[rtype]\<close>), and the record set the callback of
  \<^verbatim>\<open>getZoneState\<close> builds from a delivered one.
\<close>

definition stored :: "DNSSets \<Rightarrow> string \<Rightarrow> string \<Rightarrow> RecordSet option" where
  "stored dnssets name rtype = (case dnssets name of None \<Rightarrow> None | Some ds \<Rightarrow> Sets ds rtype)"

definition converted :: "'d dns \<Rightarrow> recordsets_RecordSet \<Rightarrow> RecordSet" where
  "converted d recordSet =
     addValues d (rs_Type recordSet) (rs_Records recordSet)
       (NewRecordSet (rs_Type recordSet) (rs_TTL recordSet) [])"

text \<open>
  The remote call an error reports: the endpoint of the innermost "Error calling"
  message under the wrapping messages, if there is one.
\<close>

fun culprit :: "error \<Rightarrow> request option" where
  "culprit (ErrorCalling rq msg) = Some rq"
| "culprit (CouldNotFindRecord z s f) = None"
| "culprit (ListingZonesFailed e) = culprit e"
| "culprit (ListingZoneRecordsFailed z e) = culprit e"
| "culprit (ListingZoneStateFailed z msg) = None"
| "culprit (CreateFailed z e) = culprit e"
| "culprit (UpdateFailed z e) = culprit e"
| "culprit (DeleteFailed z e) = culprit e"
| "culprit (RefreshFailed z e) = culprit e"

subsection \<open>A concrete remote zone store\<close>

text \<open>
  An instance of the client for evaluating the functions on concrete inputs: the remote
  keeps its zone names and its records in listing order; a request listed in
  \<open>failing\<close> is answered with a transport error. An empty filter of the record
  listing matches every record.
\<close>

record store =
  zoneNames :: "string list"
  zoneRecords :: "recordInfo list"
  failing :: "request list"

definition answer :: "store \<Rightarrow> request \<Rightarrow> 'a \<Rightarrow> store \<Rightarrow> (string + 'a) \<times> store" where
  "answer s rq body s' = (if rq \<in> set (failing s) then (Inl ''unavailable'', s) else (Inr body, s'))"

definition matching :: "string \<Rightarrow> string \<Rightarrow> string \<Rightarrow> recordInfo \<Rightarrow> bool" where
  "matching zone fieldType subDomain r \<longleftrightarrow>
     Zone r = zone \<and> (fieldType = '''' \<or> FieldType r = fieldType)
       \<and> (subDomain = '''' \<or> SubDomain r = subDomain)"

definition storeClient :: "store ovh_Client" where
  "storeClient =
     \<lparr>Get_zones = (\<lambda>s. answer s GET_zones (zoneNames s) s),
      Get_zone = (\<lambda>s z. answer s (GET_zone z)
         \<lparr>DnssecSupported = False, HasDnsAnycast = False, LastUpdate = '''', Name = z,
          NameServers = []\<rparr> s),
      Get_records = (\<lambda>s zone fieldType subDomain. answer s (GET_records zone fieldType subDomain)
         (map Id_ri (filter (matching zone fieldType subDomain) (zoneRecords s))) s),
      Post_record = (\<lambda>s zone body. answer s (POST_record zone body) ()
         (s\<lparr>zoneRecords := zoneRecords s
              @ [body\<lparr>Id_ri := 1 + fold max (map Id_ri (zoneRecords s)) 0, Zone := zone\<rparr>]\<rparr>)),
      Put_record = (\<lambda>s zone i body. answer s (PUT_record zone i body) ()
         (s\<lparr>zoneRecords := map (\<lambda>r. if Zone r = zone \<and> Id_ri r = i then r\<lparr>Ttl := Ttl body\<rparr> else r)
              (zoneRecords s)\<rparr>)),
      Delete_record = (\<lambda>s zone i. answer s (DELETE_record zone i) ()
         (s\<lparr>zoneRecords := filter (\<lambda>r. \<not> (Zone r = zone \<and> Id_ri r = i)) (zoneRecords s)\<rparr>)),
      Post_refresh = (\<lambda>s zone. answer s (POST_refresh zone) () s)\<rparr>"

definition storeEnumerate :: "store \<Rightarrow> string \<Rightarrow> (recordsets_RecordSet list \<times> string option) \<times> store" where
  "storeEnumerate s zid =
     ((map (\<lambda>r. \<lparr>rs_Name = SubDomain r @ ''.'' @ Zone r, rs_Type = FieldType r,
                  rs_TTL = Ttl r, rs_Records = [Target r]\<rparr>)
         (filter (\<lambda>r. Zone r = zid) (zoneRecords s)),
       if GET_records zid '''' '''' \<in> set (failing s) then Some ''unavailable'' else None), s)"

definition storeHandler :: "bool \<Rightarrow> store Handler" where
  "storeHandler dry =
     \<lparr>access = storeClient, DryRun = dry, ProviderType = ''ovhcloud'',
      Enumerate = storeEnumerate\<rparr>"

text \<open>
  An instance of the dns package's functions: normalizing drops one trailing dot,
  aligning keeps the name, and a change request carries a \<open>DNSSet\<close> whose name and
  record set of the requested type are handed to the provider.
\<close>

definition stripDot :: "string \<Rightarrow> string" where
  "stripDot host = (if host \<noteq> [] \<and> last host = CHR ''.'' then butlast host else host)"

definition plainDns :: "DNSSet dns" where
  "plainDns =
     \<lparr>NormalizeHostname = stripDot,
      AlignHostname = (\<lambda>name. name),
      MapToProvider = (\<lambda>rtype ds base.
         (SetName ds, case Sets ds rtype of
                        None \<Rightarrow> \<lparr>Type = rtype, TTL = 0, Records = []\<rparr>
                      | Some rs \<Rightarrow> rs))\<rparr>"

definition change :: "Action \<Rightarrow> string \<Rightarrow> string \<Rightarrow> int \<Rightarrow> string list \<Rightarrow> DNSSet ChangeRequest" where
  "change act rtype name ttl vals =
     \<lparr>Action = act, ReqType = rtype,
      dnsset = \<lparr>SetName = name,
                Sets = [rtype \<mapsto> \<lparr>Type = rtype, TTL = ttl,
                                   Records = map (\<lambda>v. \<lparr>Value = v\<rparr>) vals\<rparr>]\<rparr>\<rparr>"

definition rec :: "int \<Rightarrow> string \<Rightarrow> string \<Rightarrow> string \<Rightarrow> int \<Rightarrow> string \<Rightarrow> recordInfo" where
  "rec i fieldType subDomain target ttl zone =
     \<lparr>FieldType = fieldType, Id_ri = i, SubDomain = subDomain, Target = target,
      Ttl = ttl, Zone = zone\<rparr>"

definition exampleZone :: DNSHostedZone where
  "exampleZone = NewDNSHostedZone ''ovhcloud'' ''example.com'' ''example.com'' ''example.com'' [] False"

definition world0 :: "recordInfo list \<Rightarrow> request list \<Rightarrow> store world" where
  "world0 records bad =
     \<lparr>remote = \<lparr>zoneNames = [''example.com''], zoneRecords = records, failing = bad\<rparr>,
      calls = [], accepts = 0\<rparr>"

text \<open>A zone holding one address record for \<open>www\<close>.\<close>

definition wwwWorld :: "store world" where
  "wwwWorld = world0 [rec 1 ''A'' ''www'' ''1.2.3.4'' 300 ''example.com''] []"

text \<open>
  The bodies of the POST calls that create the address records \<open>api\<close> and \<open>www\<close>,
  and the lookup of the \<open>api\<close> address records.
\<close>

definition apiBody :: recordInfo where
  "apiBody = rec 0 ''A'' ''api'' ''5.6.7.8'' 300 ''''"

definition wwwBody :: recordInfo where
  "wwwBody = rec 0 ''A'' ''www'' ''1.2.3.4'' 300 ''''"

definition apiListing :: request where
  "apiListing = GET_records ''example.com'' ''A'' ''api''"

definition wwwBody2 :: recordInfo where
  "wwwBody2 = rec 0 ''A'' ''www'' ''1.2.3.5'' 300 ''''"

definition worldAt :: "recordInfo list \<Rightarrow> request list \<Rightarrow> (request \<times> bool) list \<Rightarrow> nat \<Rightarrow> store world" where
  "worldAt records bad log n =
     \<lparr>remote = \<lparr>zoneNames = [''example.com''], zoneRecords = records, failing = bad\<rparr>,
      calls = log, accepts = n\<rparr>"

text \<open>
  A zone with a mail exchanger at the apex, an alias \<open>www\<close>, and an address and a
  text record at \<open>api\<close>; the collection \<^verbatim>\<open>getZoneState\<close> builds from it.
\<close>

definition mixedWorld :: "store world" where
  "mixedWorld = world0 [rec 1 ''MX'' '''' ''mail.example.com.'' 300 ''example.com'',
                        rec 2 ''CNAME'' ''www'' ''foo.example.net.'' 300 ''example.com'',
                        rec 3 ''A'' ''api'' ''1.2.3.4'' 300 ''example.com'',
                        rec 4 ''TXT'' ''api'' ''v=spf1 -all.'' 60 ''example.com''] []"

definition wwwSet :: DNSSet where
  "wwwSet = \<lparr>SetName = ''www.example.com'',
             Sets = [''CNAME'' \<mapsto> \<lparr>Type = ''CNAME'', TTL = 300,
                                     Records = [\<lparr>Value = ''foo.example.net''\<rparr>]\<rparr>]\<rparr>"

definition apiSet :: DNSSet where
  "apiSet = \<lparr>SetName = ''api.example.com'',
             Sets = [''A'' \<mapsto> \<lparr>Type = ''A'', TTL = 300,
                                 Records = [\<lparr>Value = ''1.2.3.4''\<rparr>]\<rparr>,
                     ''TXT'' \<mapsto> \<lparr>Type = ''TXT'', TTL = 60,
                                   Records = [\<lparr>Value = ''v=spf1 -all.''\<rparr>]\<rparr>]\<rparr>"

definition mixedState :: DNSSets where
  "mixedState = [''www.example.com'' \<mapsto> wwwSet, ''api.example.com'' \<mapsto> apiSet]"

text \<open>The address records of \<open>www\<close> when two of them have the same target.\<close>

definition wwwTwice :: "recordInfo list" where
  "wwwTwice = [rec 1 ''A'' ''www'' ''9.9.9.9'' 300 ''example.com'',
               rec 2 ''A'' ''www'' ''1.2.3.4'' 300 ''example.com'',
               rec 3 ''A'' ''www'' ''1.2.3.4'' 300 ''example.com'']"

section \<open>Properties\<close>

subsection \<open>The log of a lookup\<close>

text \<open>
  A lookup only reads, issues at least the listing call, and stops at its first failed
  call.
\<close>

lemma issued_append: "calls w' = calls w @ new \<Longrightarrow> issued w w' = new"
  by (simp add: issued_def)

lemma issued_refl: "issued w w = []"
  by (simp add: issued_def)

lemma calls_Accept: "calls (Accept w) = calls w"
  by (simp add: Accept_def)

lemma remote_Accept: "remote (Accept w) = remote w"
  by (simp add: Accept_def)

lemma logged_calls:
  "logged rq out w = (r, w') \<Longrightarrow> calls w' = calls w @ [(rq, \<not> isl r)]"
  by (auto simp: logged_def)

lemma failfast_single: "failfast ok [(rq, ok)]"
  by (simp add: failfast_def)

lemma failfast_Nil: "failfast ok []"
  by (simp add: failfast_def)

lemma failfast_append:
  "list_all snd xs \<Longrightarrow> failfast ok ys \<Longrightarrow> failfast ok (xs @ ys)"
  by (fastforce simp: failfast_def butlast_append list_all_iff dest: in_set_butlastD)

lemma failfast_Cons:
  "failfast ok ys \<Longrightarrow> failfast ok ((rq, True) # ys)"
  using failfast_append [of "[(rq, True)]" ok ys] by simp

lemma failfast_weaken: "failfast True new \<Longrightarrow> failfast ok new"
  by (simp add: failfast_def)

lemma failfast_ok: "failfast True new \<longleftrightarrow> list_all snd new"
  by (auto simp: failfast_def list_all_iff dest: in_set_butlastD)

lemma fetchRecords_Cons:
  "fetchRecords a zone (i # ids) acc w = (r, w') \<Longrightarrow>
   r = Inl (ErrorCalling (GET_record_malformed zone i) invalidURLEscape)
   \<and> calls w' = calls w @ [(GET_record_malformed zone i, False)]"
  by (auto simp: logged_def refused_def Accept_def)

lemma fetchRecords_log:
  "fetchRecords a zone ids acc w = (r, w') \<Longrightarrow>
   \<exists>new. calls w' = calls w @ new \<and> list_all (isRead \<circ> fst) new \<and> failfast (\<not> isl r) new"
proof (cases ids)
  case Nil
  assume "fetchRecords a zone ids acc w = (r, w')"
  with Nil show ?thesis by (simp add: failfast_Nil)
next
  case (Cons i rest)
  assume "fetchRecords a zone ids acc w = (r, w')"
  with Cons have "fetchRecords a zone (i # rest) acc w = (r, w')" by simp
  from fetchRecords_Cons [OF this] show ?thesis by (simp add: failfast_def)
qed

lemma getRecordSets_log:
  "getRecordSets a zone subDomain fieldType w = (r, w') \<Longrightarrow>
   \<exists>new. calls w' = calls w @ new \<and> new \<noteq> [] \<and> list_all (isRead \<circ> fst) new
     \<and> failfast (\<not> isl r) new"
proof -
  assume run: "getRecordSets a zone subDomain fieldType w = (r, w')"
  let ?rq = "GET_records zone fieldType subDomain"
  obtain r1 w1 where l: "logged ?rq (Get_records a (remote w) zone fieldType subDomain) (Accept w) = (r1, w1)"
    by (cases "logged ?rq (Get_records a (remote w) zone fieldType subDomain) (Accept w)")
  from logged_calls [OF l] have c1: "calls w1 = calls w @ [(?rq, \<not> isl r1)]"
    by (simp add: calls_Accept)
  show ?thesis
  proof (cases r1)
    case (Inl err)
    with run l have "w' = w1" "isl r" by (auto simp: getRecordSets_def)
    with c1 Inl show ?thesis by (simp add: failfast_def)
  next
    case (Inr ids)
    with run l have "fetchRecords a zone ids [] w1 = (r, w')" by (simp add: getRecordSets_def)
    from fetchRecords_log [OF this] obtain new where
      n: "calls w' = calls w1 @ new" "list_all (isRead \<circ> fst) new" "failfast (\<not> isl r) new"
      by blast
    with c1 Inr have "calls w' = calls w @ (?rq, True) # new" by simp
    moreover have "list_all (isRead \<circ> fst) ((?rq, True) # new)" using n by simp
    moreover have "failfast (\<not> isl r) ((?rq, True) # new)"
      using n by (simp add: failfast_Cons)
    ultimately show ?thesis by blast
  qed
qed

lemma getRecordSet_log:
  "getRecordSet a zone subDomain val fieldType w = (r, w') \<Longrightarrow>
   \<exists>new. calls w' = calls w @ new \<and> new \<noteq> [] \<and> list_all (isRead \<circ> fst) new
     \<and> failfast (\<not> isl r) new"
proof -
  assume run: "getRecordSet a zone subDomain val fieldType w = (r, w')"
  obtain r1 w1 where g: "getRecordSets a zone subDomain fieldType w = (r1, w1)"
    by (cases "getRecordSets a zone subDomain fieldType w")
  with run have "w' = w1" "isl r = isl r1"
    by (auto simp: getRecordSet_def split: sum.splits)
  with getRecordSets_log [OF g] show ?thesis by simp
qed

lemma isRead_not_write: "isRead rq \<Longrightarrow> \<not> isDelete rq \<and> \<not> isRefresh rq"
  by (cases rq) simp_all

lemma lookup_reads:
  assumes "getRecordSets a zone subDomain fieldType w = (r, w1)"
  shows "list_all (isRead \<circ> fst) (issued w w1)"
  using getRecordSets_log [OF assms] by (auto simp: issued_def)

lemma firstWithTarget_None:
  "firstWithTarget val records = None \<longleftrightarrow> (\<forall>r\<in>set records. Target r \<noteq> val)"
  by (induction records) auto

lemma getRecordSet_absent:
  assumes "getRecordSets a zone subDomain fieldType w = (Inr records, w1)"
    and "\<forall>r\<in>set records. Target r \<noteq> val"
  shows "getRecordSet a zone subDomain val fieldType w = (Inr None, w1)"
  using assms by (simp add: getRecordSet_def firstWithTarget_None)

text \<open>
  As the fetch of a listed record is refused, a lookup completes only when the listing is
  empty, and then it finds no record.
\<close>

lemma fetchRecords_Inr:
  "fetchRecords a zone ids acc w = (Inr records, w') \<Longrightarrow> ids = [] \<and> records = acc \<and> w' = w"
  by (cases ids) (auto simp: logged_def refused_def)

lemma getRecordSets_Inr:
  "getRecordSets a zone subDomain fieldType w = (Inr records, w') \<Longrightarrow> records = []"
  by (auto simp: getRecordSets_def split: prod.splits sum.splits dest: fetchRecords_Inr)

lemma getRecordSet_Inr:
  "getRecordSet a zone subDomain val fieldType w = (Inr found, w') \<Longrightarrow> found = None"
  by (auto simp: getRecordSet_def split: prod.splits sum.splits dest: getRecordSets_Inr)

subsection \<open>Evaluation on the concrete store\<close>

lemmas store_defs = storeHandler_def storeClient_def storeEnumerate_def answer_def matching_def
  plainDns_def stripDot_def change_def rec_def exampleZone_def world0_def NewDNSHostedZone_def
  wwwWorld_def

lemmas access_defs = Accept_def logged_def refused_def createRecordSet_def getRecordSets_def
  getRecordSet_def updateRecordSet_def deleteRecordSet_def refreshZone_def access_getZones_def

lemmas body_defs = apiBody_def wwwBody_def wwwBody2_def apiListing_def

lemma issued_world0: "issued (world0 records bad) (worldAt records' bad' log n) = log"
  by (simp add: issued_def world0_def worldAt_def)


subsection \<open>Dry-run\<close>

text \<open>
  C8. When the handler is configured for dry-run, \<^verbatim>\<open>executeRequests\<close> returns nil at
  once, whatever the zone, the state and the change requests: the world it returns is the
  world it was given, so no remote call is issued, no rate-limiter token is taken and no
  request is mapped or dispatched.
\<close>

theorem executeRequests_dryrun:
  "DryRun h \<Longrightarrow> executeRequests h d zone state reqs w = (None, w)"
  by (simp add: executeRequests_def)

theorem executeRequests_dryrun_witness:
  "DryRun (storeHandler True) \<and>
   executeRequests (storeHandler True) plainDns exampleZone Map.empty
     [change R_CREATE ''A'' ''api'' 300 [''5.6.7.8''],
      change R_DELETE ''A'' ''www'' 300 [''1.2.3.4'']] wwwWorld
   = (None, wwwWorld)"
  using executeRequests_dryrun [of "storeHandler True" plainDns exampleZone Map.empty
     "[change R_CREATE ''A'' ''api'' 300 [''5.6.7.8''],
       change R_DELETE ''A'' ''www'' 300 [''1.2.3.4'']]" wwwWorld]
  by (simp add: storeHandler_def)

subsection \<open>Operations on a record that is not there\<close>

text \<open>
  When a lookup completes and no listed record has the requested target,
  \<^verbatim>\<open>deleteRecordSet\<close> returns nil, ends in the world the lookup left, and has issued
  no DELETE call.
\<close>

lemma deleteRecordSet_absent:
  assumes "getRecordSets a zone subDomain fieldType w = (Inr records, w1)"
    and "\<forall>r\<in>set records. Target r \<noteq> val"
  shows "deleteRecordSet a zone subDomain val fieldType w = (None, w1)
         \<and> filter (isDelete \<circ> fst) (issued w w1) = []"
proof -
  have "deleteRecordSet a zone subDomain val fieldType w = (None, w1)"
    using getRecordSet_absent [OF assms] by (simp add: deleteRecordSet_def)
  moreover have "list_all (isRead \<circ> fst) (issued w w1)"
    using assms(1) by (rule lookup_reads)
  then have "filter (isDelete \<circ> fst) (issued w w1) = []"
    by (fastforce simp: filter_empty_conv list_all_iff dest: isRead_not_write)
  ultimately show ?thesis by simp
qed

text \<open>
  C6. Deleting a target that is not in the zone should return success. In the zone with
  the one address record 1.2.3.4 for \<open>www\<close>, the delete of the address 5.6.7.8 for
  \<open>www\<close> lists the record set, is refused the fetch of the listed record (the path
  formatted with \<^verbatim>\<open>%i\<close>), and returns that error: no DELETE call is issued, but the
  delete does not succeed.
\<close>

theorem delete_absent_target_fails:
  "deleteRecordSet storeClient ''example.com'' ''www'' ''5.6.7.8'' ''A'' wwwWorld
     = (Some (ErrorCalling (GET_record_malformed ''example.com'' 1) invalidURLEscape),
        worldAt [rec 1 ''A'' ''www'' ''1.2.3.4'' 300 ''example.com''] []
          [(GET_records ''example.com'' ''A'' ''www'', True),
           (GET_record_malformed ''example.com'' 1, False)] 2)"
  by (simp add: store_defs access_defs worldAt_def)




subsection \<open>The log of the change executor\<close>

text \<open>
  Every per-record operation issues at least one call, never a refresh, and stops at its
  first failed call; so do the two loops of \<^verbatim>\<open>executeRequests\<close>, and the refresh,
  when it is issued, is the last call, after at least one call and no failed one.
\<close>

lemma reads_no_refresh:
  "list_all (isRead \<circ> fst) new \<Longrightarrow> list_all (\<lambda>c. \<not> isRefresh (fst c)) new"
  by (auto simp: list_all_iff dest: isRead_not_write)

lemma createRecordSet_log:
  assumes "createRecordSet a zone name val fieldType ttl w = (r, w')"
  shows "\<exists>new. calls w' = calls w @ new \<and> opLog (r = None) new"
proof -
  let ?r = "\<lparr>FieldType = fieldType, Id_ri = 0, SubDomain = name, Target = val,
             Ttl = ttl, Zone = ''''\<rparr>"
  obtain r1 w1 where l: "logged (POST_record zone ?r) (Post_record a (remote w) zone ?r) (Accept w) = (r1, w1)"
    by (cases "logged (POST_record zone ?r) (Post_record a (remote w) zone ?r) (Accept w)")
  from logged_calls [OF l] have c1: "calls w1 = calls w @ [(POST_record zone ?r, \<not> isl r1)]"
    by (simp add: calls_Accept)
  from assms l have "w' = w1" "(r = None) = (\<not> isl r1)"
    by (auto simp: createRecordSet_def Let_def split: sum.splits)
  with c1 show ?thesis by (simp add: opLog_def failfast_def)
qed

lemma updateRecordSet_log:
  assumes "updateRecordSet a zone subDomain val fieldType ttl w = (r, w')"
  shows "\<exists>new. calls w' = calls w @ new \<and> opLog (r = None) new"
proof -
  obtain r1 w1 where g: "getRecordSet a zone subDomain val fieldType w = (r1, w1)"
    by (cases "getRecordSet a zone subDomain val fieldType w")
  from getRecordSet_log [OF g] obtain new1 where
    n1: "calls w1 = calls w @ new1" "new1 \<noteq> []" "list_all (isRead \<circ> fst) new1"
        "failfast (\<not> isl r1) new1"
    by blast
  have nr1: "list_all (\<lambda>c. \<not> isRefresh (fst c)) new1"
    using n1(3) by (rule reads_no_refresh)
  show ?thesis
  proof (cases r1)
    case (Inl err)
    with assms g have "w' = w1" "r \<noteq> None" by (auto simp: updateRecordSet_def)
    with n1 nr1 Inl show ?thesis by (auto simp: opLog_def)
  next
    case (Inr found)
    show ?thesis
    proof (cases found)
      case None
      with assms g Inr have "w' = w1" "r \<noteq> None" by (auto simp: updateRecordSet_def)
      with n1 nr1 Inr show ?thesis by (auto simp: opLog_def intro: failfast_weaken)
    next
      case (Some rcd)
      let ?ri = "\<lparr>FieldType = '''', Id_ri = 0, SubDomain = '''', Target = '''',
                  Ttl = ttl, Zone = ''''\<rparr>"
      let ?rq = "PUT_record zone (Id_ri rcd) ?ri"
      obtain r2 w2 where l: "logged ?rq (Put_record a (remote w1) zone (Id_ri rcd) ?ri) (Accept w1) = (r2, w2)"
        by (cases "logged ?rq (Put_record a (remote w1) zone (Id_ri rcd) ?ri) (Accept w1)")
      from logged_calls [OF l] have c2: "calls w2 = calls w1 @ [(?rq, \<not> isl r2)]"
        by (simp add: calls_Accept)
      from assms g Inr Some l have e: "w' = w2" "(r = None) = (\<not> isl r2)"
        by (auto simp: updateRecordSet_def Let_def split: sum.splits)
      from n1(4) Inr have ok1: "list_all snd new1" by (simp add: failfast_ok)
      have "failfast (r = None) (new1 @ [(?rq, \<not> isl r2)])"
        using ok1 e(2) by (intro failfast_append) (simp_all add: failfast_single)
      moreover have "calls w' = calls w @ (new1 @ [(?rq, \<not> isl r2)])"
        using e(1) c2 n1(1) by simp
      moreover have "list_all (\<lambda>c. \<not> isRefresh (fst c)) (new1 @ [(?rq, \<not> isl r2)])"
        using nr1 by simp
      ultimately show ?thesis unfolding opLog_def by blast
    qed
  qed
qed

lemma deleteRecordSet_log:
  assumes "deleteRecordSet a zone subDomain val fieldType w = (r, w')"
  shows "\<exists>new. calls w' = calls w @ new \<and> opLog (r = None) new"
proof -
  obtain r1 w1 where g: "getRecordSet a zone subDomain val fieldType w = (r1, w1)"
    by (cases "getRecordSet a zone subDomain val fieldType w")
  from getRecordSet_log [OF g] obtain new1 where
    n1: "calls w1 = calls w @ new1" "new1 \<noteq> []" "list_all (isRead \<circ> fst) new1"
        "failfast (\<not> isl r1) new1"
    by blast
  have nr1: "list_all (\<lambda>c. \<not> isRefresh (fst c)) new1"
    using n1(3) by (rule reads_no_refresh)
  show ?thesis
  proof (cases r1)
    case (Inl err)
    with assms g have "w' = w1" "r \<noteq> None" by (auto simp: deleteRecordSet_def)
    with n1 nr1 Inl show ?thesis by (auto simp: opLog_def)
  next
    case (Inr found)
    show ?thesis
    proof (cases found)
      case None
      with assms g Inr have "w' = w1" "r = None" by (auto simp: deleteRecordSet_def)
      with n1 nr1 Inr show ?thesis by (auto simp: opLog_def)
    next
      case (Some rcd)
      let ?rq = "DELETE_record zone (Id_ri rcd)"
      obtain r2 w2 where l: "logged ?rq (Delete_record a (remote w1) zone (Id_ri rcd)) (Accept w1) = (r2, w2)"
        by (cases "logged ?rq (Delete_record a (remote w1) zone (Id_ri rcd)) (Accept w1)")
      from logged_calls [OF l] have c2: "calls w2 = calls w1 @ [(?rq, \<not> isl r2)]"
        by (simp add: calls_Accept)
      from assms g Inr Some l have e: "w' = w2" "(r = None) = (\<not> isl r2)"
        by (auto simp: deleteRecordSet_def Let_def split: sum.splits)
      from n1(4) Inr have ok1: "list_all snd new1" by (simp add: failfast_ok)
      have "failfast (r = None) (new1 @ [(?rq, \<not> isl r2)])"
        using ok1 e(2) by (intro failfast_append) (simp_all add: failfast_single)
      moreover have "calls w' = calls w @ (new1 @ [(?rq, \<not> isl r2)])"
        using e(1) c2 n1(1) by simp
      moreover have "list_all (\<lambda>c. \<not> isRefresh (fst c)) (new1 @ [(?rq, \<not> isl r2)])"
        using nr1 by simp
      ultimately show ?thesis unfolding opLog_def by blast
    qed
  qed
qed

lemma refreshZone_log:
  assumes "refreshZone a zone w = (r, w')"
  shows "calls w' = calls w @ [(POST_refresh zone, r = None)]"
proof -
  obtain r1 w1 where l: "logged (POST_refresh zone) (Post_refresh a (remote w) zone) (Accept w) = (r1, w1)"
    by (cases "logged (POST_refresh zone) (Post_refresh a (remote w) zone) (Accept w)")
  from logged_calls [OF l] have c1: "calls w1 = calls w @ [(POST_refresh zone, \<not> isl r1)]"
    by (simp add: calls_Accept)
  from assms l have "w' = w1" "(r = None) = (\<not> isl r1)"
    by (auto simp: refreshZone_def split: sum.splits)
  with c1 show ?thesis by simp
qed

lemma dispatch_log:
  assumes "dispatch a act zid name rset r w = (res, w')"
  shows "\<exists>new. calls w' = calls w @ new \<and> opLog (res = None) new"
  using assms createRecordSet_log updateRecordSet_log deleteRecordSet_log
  by (cases act) (simp_all add: dispatch_def)

lemma recordsLoop_step:
  "recordsLoop a act zid name rset (r # rs) updated w =
     (case dispatch a act zid name rset r (Accept w) of
        (Some err, w') \<Rightarrow> (Return (Some ((case act of R_CREATE \<Rightarrow> CreateFailed
                 | R_UPDATE \<Rightarrow> UpdateFailed | R_DELETE \<Rightarrow> DeleteFailed) zid err)), w')
      | (None, w') \<Rightarrow> recordsLoop a act zid name rset rs True w')"
  by (cases act) (auto simp: dispatch_def split: prod.splits option.splits)

lemma recordsLoop_log:
  "recordsLoop a act zid name rset rs updated w = (fl, w') \<Longrightarrow>
   \<exists>new. calls w' = calls w @ new \<and> list_all (\<lambda>c. \<not> isRefresh (fst c)) new
     \<and> failfast (flow_ok fl) new
     \<and> fl \<noteq> Return None
     \<and> (fl = Fallthrough True \<longrightarrow> updated \<or> new \<noteq> [])
     \<and> (fl = Fallthrough False \<longrightarrow> rs = [])"
proof (induction rs arbitrary: updated w)
  case Nil
  then show ?case by (auto simp: failfast_Nil)
next
  case (Cons r rs)
  obtain r1 w1 where d: "dispatch a act zid name rset r (Accept w) = (r1, w1)"
    by (cases "dispatch a act zid name rset r (Accept w)")
  from dispatch_log [OF d] obtain new1 where
    n1: "calls w1 = calls w @ new1" "opLog (r1 = None) new1"
    by (auto simp: calls_Accept)
  show ?case
  proof (cases r1)
    case (Some err)
    with Cons.prems d have "w' = w1" "\<exists>e. fl = Return (Some e)"
      by (auto simp: recordsLoop_step simp del: recordsLoop.simps)
    with n1 Some show ?thesis by (auto simp: opLog_def)
  next
    case None
    with Cons.prems d have "recordsLoop a act zid name rset rs True w1 = (fl, w')"
      by (simp add: recordsLoop_step del: recordsLoop.simps)
    from Cons.IH [OF this] obtain new2 where
      n2: "calls w' = calls w1 @ new2" "list_all (\<lambda>c. \<not> isRefresh (fst c)) new2"
          "failfast (flow_ok fl) new2" "fl \<noteq> Return None" "fl = Fallthrough False \<longrightarrow> rs = []"
      by blast
    from n1(2) None have ok1: "list_all snd new1" "new1 \<noteq> []"
      "list_all (\<lambda>c. \<not> isRefresh (fst c)) new1"
      by (simp_all add: opLog_def failfast_ok)
    have "calls w' = calls w @ (new1 @ new2)" using n1(1) n2(1) by simp
    moreover have "list_all (\<lambda>c. \<not> isRefresh (fst c)) (new1 @ new2)" using ok1 n2 by simp
    moreover have "failfast (flow_ok fl) (new1 @ new2)"
      using ok1(1) n2(3) by (rule failfast_append)
    moreover have "new1 @ new2 \<noteq> []" using ok1 by simp
    moreover have "fl \<noteq> Fallthrough False"
    proof
      assume f: "fl = Fallthrough False"
      with n2(5) have "rs = []" by simp
      with \<open>recordsLoop a act zid name rset rs True w1 = (fl, w')\<close> f show False by simp
    qed
    ultimately show ?thesis using n2(4) by blast
  qed
qed

lemma requestsLoop_log:
  "requestsLoop h d zone reqs updated w = (fl, w') \<Longrightarrow>
   \<exists>new. calls w' = calls w @ new \<and> list_all (\<lambda>c. \<not> isRefresh (fst c)) new
     \<and> failfast (flow_ok fl) new
     \<and> (fl = Fallthrough True \<longrightarrow> updated \<or> new \<noteq> [])"
proof (induction reqs arbitrary: updated w)
  case Nil
  then show ?case by (auto simp: failfast_Nil)
next
  case (Cons req reqs)
  obtain name0 rset where m: "MapToProvider d (ReqType req) (dnsset req) (Domain_hz zone) = (name0, rset)"
    by (cases "MapToProvider d (ReqType req) (dnsset req) (Domain_hz zone)")
  show ?case
  proof (cases "Records rset = []")
    case True
    with Cons.prems m have "fl = Return None" "w' = w" by simp_all
    then show ?thesis by (simp add: failfast_Nil)
  next
    case False
    obtain fl1 w1 where r: "recordsLoop (access h) (Action req) (Id_hz zone) (AlignHostname d name0)
        rset (Records rset) updated w = (fl1, w1)"
      by (cases "recordsLoop (access h) (Action req) (Id_hz zone) (AlignHostname d name0)
        rset (Records rset) updated w")
    from recordsLoop_log [OF r] obtain new1 where
      n1: "calls w1 = calls w @ new1" "list_all (\<lambda>c. \<not> isRefresh (fst c)) new1"
          "failfast (flow_ok fl1) new1" "fl1 \<noteq> Return None"
          "fl1 = Fallthrough True \<longrightarrow> updated \<or> new1 \<noteq> []"
          "fl1 = Fallthrough False \<longrightarrow> Records rset = []"
      by blast
    show ?thesis
    proof (cases fl1)
      case (Return e)
      with Cons.prems m False r have "fl = fl1" "w' = w1" by (simp_all add: Let_def)
      with n1 Return show ?thesis by auto
    next
      case (Fallthrough u)
      with Cons.prems m False r have rest: "requestsLoop h d zone reqs u w1 = (fl, w')"
        by (simp add: Let_def)
      from Fallthrough n1(6) False have u: "u" by (cases u) simp_all
      from Cons.IH [OF rest] obtain new2 where
        n2: "calls w' = calls w1 @ new2" "list_all (\<lambda>c. \<not> isRefresh (fst c)) new2"
            "failfast (flow_ok fl) new2"
        by blast
      from n1(3) Fallthrough have ok1: "list_all snd new1" by (simp add: failfast_ok)
      from n1(5) Fallthrough u have ne: "updated \<or> new1 \<noteq> []" by simp
      have "calls w' = calls w @ (new1 @ new2)" using n1(1) n2(1) by simp
      moreover have "list_all (\<lambda>c. \<not> isRefresh (fst c)) (new1 @ new2)" using n1(2) n2(2) by simp
      moreover have "failfast (flow_ok fl) (new1 @ new2)"
        using ok1 n2(3) by (rule failfast_append)
      moreover have "updated \<or> new1 @ new2 \<noteq> []" using ne by auto
      ultimately show ?thesis by blast
    qed
  qed
qed

lemma executeRequests_log:
  assumes "executeRequests h d zone state reqs w = (res, w')"
  shows "\<exists>new. calls w' = calls w @ new \<and> failfast (res = None) new
     \<and> (list_all (\<lambda>c. \<not> isRefresh (fst c)) new
        \<or> (\<exists>pre ok. new = pre @ [(POST_refresh (Id_hz zone), ok)] \<and> pre \<noteq> []
              \<and> list_all snd pre \<and> list_all (\<lambda>c. \<not> isRefresh (fst c)) pre))"
proof (cases "DryRun h")
  case True
  with assms have "w' = w" "res = None" by (simp_all add: executeRequests_def)
  then show ?thesis by (simp add: failfast_Nil)
next
  case False
  obtain fl w1 where l: "requestsLoop h d zone reqs False w = (fl, w1)"
    by (cases "requestsLoop h d zone reqs False w")
  from requestsLoop_log [OF l] obtain new1 where
    n1: "calls w1 = calls w @ new1" "list_all (\<lambda>c. \<not> isRefresh (fst c)) new1"
        "failfast (flow_ok fl) new1" "fl = Fallthrough True \<longrightarrow> new1 \<noteq> []"
    by blast
  show ?thesis
  proof (cases "fl = Fallthrough True")
    case nofresh: False
    with assms False l have e: "w' = w1" "(res = None) = flow_ok fl"
      by (auto simp: executeRequests_def split: flow.splits elim: flow_ok.elims)
    with n1 show ?thesis by auto
  next
    case True
    obtain r2 w2 where f: "refreshZone (access h) (Id_hz zone) (Accept w1) = (r2, w2)"
      by (cases "refreshZone (access h) (Id_hz zone) (Accept w1)")
    from refreshZone_log [OF f] have c2: "calls w2 = calls w1 @ [(POST_refresh (Id_hz zone), r2 = None)]"
      by (simp add: calls_Accept)
    from assms False l True f have e: "w' = w2" "(res = None) = (r2 = None)"
      by (auto simp: executeRequests_def split: option.splits)
    from n1(3) True have ok1: "list_all snd new1" by (simp add: failfast_ok)
    have "calls w' = calls w @ (new1 @ [(POST_refresh (Id_hz zone), r2 = None)])"
      using e(1) c2 n1(1) by simp
    moreover have "failfast (res = None) (new1 @ [(POST_refresh (Id_hz zone), r2 = None)])"
      using ok1 e(2) by (intro failfast_append) (simp_all add: failfast_single)
    moreover have "new1 \<noteq> []" using n1(4) True by simp
    ultimately show ?thesis using ok1 n1(2) by blast
  qed
qed

lemma recordsLoop_error:
  "recordsLoop a act zid name rset rs updated w = (Return (Some e), w') \<Longrightarrow> \<not> refreshError e"
proof (induction rs arbitrary: updated w)
  case Nil
  then show ?case by simp
next
  case (Cons r rs)
  then show ?case
    by (cases act)
       (auto simp: recordsLoop_step simp del: recordsLoop.simps split: prod.splits option.splits)
qed

lemma requestsLoop_error:
  "requestsLoop h d zone reqs updated w = (Return (Some e), w') \<Longrightarrow> \<not> refreshError e"
proof (induction reqs arbitrary: updated w)
  case Nil
  then show ?case by simp
next
  case (Cons req reqs)
  then show ?case
    by (auto simp: Let_def split: prod.splits if_splits flow.splits dest: recordsLoop_error)
qed

lemma executeRequests_error:
  assumes "executeRequests h d zone state reqs w = (Some e, w')" and "\<not> refreshError e"
  shows "\<exists>w0. requestsLoop h d zone reqs False w0 = (Return (Some e), w') \<and> calls w0 = calls w"
  using assms
  by (auto simp: executeRequests_def split: if_splits prod.splits flow.splits option.splits)

lemma no_refresh_filter:
  "list_all (\<lambda>c. \<not> isRefresh (fst c)) new \<Longrightarrow> filter (isRefresh \<circ> fst) new = []"
  by (simp add: filter_empty_conv list_all_iff)

lemma failfast_failed: "failfast ok new \<Longrightarrow> (rq, False) \<in> set new \<Longrightarrow> \<not> ok"
  by (cases ok) (auto simp: failfast_def list_all_iff)

subsection \<open>The error of a failed call\<close>

text \<open>
  When a call fails, the function that issued it returns the "Error calling" error of
  that very call, and \<^verbatim>\<open>executeRequests\<close> returns it under its own wrapping message.
\<close>

lemma issued_trans:
  "calls w1 = calls w @ xs \<Longrightarrow> calls w' = calls w1 @ ys \<Longrightarrow> issued w w' = xs @ issued w1 w'"
  by (simp add: issued_def)

lemma fetchRecords_blame:
  "fetchRecords a zone ids acc w = (r, w') \<Longrightarrow> (rq, False) \<in> set (issued w w') \<Longrightarrow>
   \<exists>msg. r = Inl (ErrorCalling rq msg)"
proof (cases ids)
  case Nil
  assume "fetchRecords a zone ids acc w = (r, w')" and "(rq, False) \<in> set (issued w w')"
  with Nil show ?thesis by (simp add: issued_def)
next
  case (Cons i rest)
  assume "fetchRecords a zone ids acc w = (r, w')" and m: "(rq, False) \<in> set (issued w w')"
  with Cons have "fetchRecords a zone (i # rest) acc w = (r, w')" by simp
  from fetchRecords_Cons [OF this] m show ?thesis by (simp add: issued_def)
qed

lemma getRecordSets_blame:
  assumes "getRecordSets a zone subDomain fieldType w = (r, w')"
    and "(rq, False) \<in> set (issued w w')"
  shows "\<exists>msg. r = Inl (ErrorCalling rq msg)"
proof -
  let ?rq = "GET_records zone fieldType subDomain"
  obtain r1 w1 where l: "logged ?rq (Get_records a (remote w) zone fieldType subDomain) (Accept w) = (r1, w1)"
    by (cases "logged ?rq (Get_records a (remote w) zone fieldType subDomain) (Accept w)")
  from logged_calls [OF l] have c1: "calls w1 = calls w @ [(?rq, \<not> isl r1)]"
    by (simp add: calls_Accept)
  show ?thesis
  proof (cases r1)
    case (Inl err)
    with assms(1) l have "w' = w1" "r = Inl (ErrorCalling ?rq err)"
      by (auto simp: getRecordSets_def)
    with c1 Inl assms(2) show ?thesis by (simp add: issued_def)
  next
    case (Inr ids)
    with assms(1) l have rest: "fetchRecords a zone ids [] w1 = (r, w')"
      by (simp add: getRecordSets_def)
    from fetchRecords_log [OF rest] obtain new where "calls w' = calls w1 @ new" by blast
    from issued_trans [OF c1 this] Inr assms(2) have "(rq, False) \<in> set (issued w1 w')"
      by simp
    with fetchRecords_blame [OF rest] show ?thesis by blast
  qed
qed

lemma getRecordSet_blame:
  assumes "getRecordSet a zone subDomain val fieldType w = (r, w')"
    and "(rq, False) \<in> set (issued w w')"
  shows "\<exists>msg. r = Inl (ErrorCalling rq msg)"
proof -
  obtain r1 w1 where g: "getRecordSets a zone subDomain fieldType w = (r1, w1)"
    by (cases "getRecordSets a zone subDomain fieldType w")
  with assms(1) have e: "w' = w1" by (auto simp: getRecordSet_def split: sum.splits)
  from getRecordSets_blame [OF g] assms(2) e obtain msg where "r1 = Inl (ErrorCalling rq msg)"
    by blast
  with assms(1) g show ?thesis by (auto simp: getRecordSet_def)
qed

lemma createRecordSet_blame:
  assumes "createRecordSet a zone name val fieldType ttl w = (r, w')"
    and "(rq, False) \<in> set (issued w w')"
  shows "\<exists>msg. r = Some (ErrorCalling rq msg)"
proof -
  let ?r = "\<lparr>FieldType = fieldType, Id_ri = 0, SubDomain = name, Target = val,
             Ttl = ttl, Zone = ''''\<rparr>"
  obtain r1 w1 where l: "logged (POST_record zone ?r) (Post_record a (remote w) zone ?r) (Accept w) = (r1, w1)"
    by (cases "logged (POST_record zone ?r) (Post_record a (remote w) zone ?r) (Accept w)")
  from logged_calls [OF l] have c1: "calls w1 = calls w @ [(POST_record zone ?r, \<not> isl r1)]"
    by (simp add: calls_Accept)
  from assms(1) l have e: "w' = w1" by (auto simp: createRecordSet_def Let_def split: sum.splits)
  with c1 assms(2) have "rq = POST_record zone ?r" "isl r1" by (simp_all add: issued_def)
  with assms(1) l show ?thesis
    by (cases r1) (auto simp: createRecordSet_def Let_def)
qed

lemma tail_blame:
  assumes "calls w1 = calls w @ new1" and "list_all snd new1"
    and "calls w2 = calls w1 @ [(rq2, ok)]" and "(rq, False) \<in> set (issued w w2)"
  shows "rq = rq2 \<and> \<not> ok"
  using assms by (auto simp: issued_def list_all_iff)

lemma updateRecordSet_blame:
  assumes "updateRecordSet a zone subDomain val fieldType ttl w = (r, w')"
    and "(rq, False) \<in> set (issued w w')"
  shows "\<exists>msg. r = Some (ErrorCalling rq msg)"
proof -
  obtain r1 w1 where g: "getRecordSet a zone subDomain val fieldType w = (r1, w1)"
    by (cases "getRecordSet a zone subDomain val fieldType w")
  from getRecordSet_log [OF g] obtain new1 where
    n1: "calls w1 = calls w @ new1" "failfast (\<not> isl r1) new1"
    by blast
  show ?thesis
  proof (cases r1)
    case (Inl err)
    with assms(1) g have e: "w' = w1" "r = Some err" by (auto simp: updateRecordSet_def)
    from getRecordSet_blame [OF g] assms(2) e Inl show ?thesis by auto
  next
    case (Inr found)
    with n1(2) have ok1: "list_all snd new1" by (simp add: failfast_ok)
    show ?thesis
    proof (cases found)
      case None
      with assms(1) g Inr have "w' = w1" by (auto simp: updateRecordSet_def)
      with n1(1) ok1 assms(2) show ?thesis by (auto simp: issued_def list_all_iff)
    next
      case (Some rcd)
      let ?ri = "\<lparr>FieldType = '''', Id_ri = 0, SubDomain = '''', Target = '''',
                  Ttl = ttl, Zone = ''''\<rparr>"
      let ?rq = "PUT_record zone (Id_ri rcd) ?ri"
      obtain r2 w2 where l: "logged ?rq (Put_record a (remote w1) zone (Id_ri rcd) ?ri) (Accept w1) = (r2, w2)"
        by (cases "logged ?rq (Put_record a (remote w1) zone (Id_ri rcd) ?ri) (Accept w1)")
      from logged_calls [OF l] have c2: "calls w2 = calls w1 @ [(?rq, \<not> isl r2)]"
        by (simp add: calls_Accept)
      from assms(1) g Inr Some l have e: "w' = w2"
        by (auto simp: updateRecordSet_def Let_def split: sum.splits)
      from tail_blame [OF n1(1) ok1 c2] assms(2) e have "rq = ?rq" "isl r2" by simp_all
      with assms(1) g Inr Some l show ?thesis
        by (cases r2) (auto simp: updateRecordSet_def Let_def)
    qed
  qed
qed

lemma deleteRecordSet_blame:
  assumes "deleteRecordSet a zone subDomain val fieldType w = (r, w')"
    and "(rq, False) \<in> set (issued w w')"
  shows "\<exists>msg. r = Some (ErrorCalling rq msg)"
proof -
  obtain r1 w1 where g: "getRecordSet a zone subDomain val fieldType w = (r1, w1)"
    by (cases "getRecordSet a zone subDomain val fieldType w")
  from getRecordSet_log [OF g] obtain new1 where
    n1: "calls w1 = calls w @ new1" "failfast (\<not> isl r1) new1"
    by blast
  show ?thesis
  proof (cases r1)
    case (Inl err)
    with assms(1) g have e: "w' = w1" "r = Some err" by (auto simp: deleteRecordSet_def)
    from getRecordSet_blame [OF g] assms(2) e Inl show ?thesis by auto
  next
    case (Inr found)
    with n1(2) have ok1: "list_all snd new1" by (simp add: failfast_ok)
    show ?thesis
    proof (cases found)
      case None
      with assms(1) g Inr have "w' = w1" by (auto simp: deleteRecordSet_def)
      with n1(1) ok1 assms(2) show ?thesis by (auto simp: issued_def list_all_iff)
    next
      case (Some rcd)
      let ?rq = "DELETE_record zone (Id_ri rcd)"
      obtain r2 w2 where l: "logged ?rq (Delete_record a (remote w1) zone (Id_ri rcd)) (Accept w1) = (r2, w2)"
        by (cases "logged ?rq (Delete_record a (remote w1) zone (Id_ri rcd)) (Accept w1)")
      from logged_calls [OF l] have c2: "calls w2 = calls w1 @ [(?rq, \<not> isl r2)]"
        by (simp add: calls_Accept)
      from assms(1) g Inr Some l have e: "w' = w2"
        by (auto simp: deleteRecordSet_def Let_def split: sum.splits)
      from tail_blame [OF n1(1) ok1 c2] assms(2) e have "rq = ?rq" "isl r2" by simp_all
      with assms(1) g Inr Some l show ?thesis
        by (cases r2) (auto simp: deleteRecordSet_def Let_def)
    qed
  qed
qed

lemma dispatch_blame:
  assumes "dispatch a act zid name rset r w = (res, w')"
    and "(rq, False) \<in> set (issued w w')"
  shows "\<exists>msg. res = Some (ErrorCalling rq msg)"
  using assms createRecordSet_blame updateRecordSet_blame deleteRecordSet_blame
  by (cases act) (simp_all add: dispatch_def)

lemma issued_Accept: "issued (Accept w) w' = issued w w'"
  by (simp add: issued_def calls_Accept)

lemma recordsLoop_blame:
  "recordsLoop a act zid name rset rs updated w = (fl, w') \<Longrightarrow>
   (rq, False) \<in> set (issued w w') \<Longrightarrow> \<exists>e. fl = Return (Some e) \<and> culprit e = Some rq"
proof (induction rs arbitrary: updated w)
  case Nil
  then show ?case by (simp add: issued_def)
next
  case (Cons r rs)
  obtain r1 w1 where d: "dispatch a act zid name rset r (Accept w) = (r1, w1)"
    by (cases "dispatch a act zid name rset r (Accept w)")
  from dispatch_log [OF d] obtain new1 where
    n1: "calls w1 = calls w @ new1" "opLog (r1 = None) new1"
    by (auto simp: calls_Accept)
  show ?case
  proof (cases r1)
    case (Some err)
    with Cons.prems(1) d have e: "w' = w1"
      "\<exists>wrap. fl = Return (Some (wrap err)) \<and> (\<forall>x. culprit (wrap x) = culprit x)"
      by (cases act; auto simp: recordsLoop_step simp del: recordsLoop.simps)+
    from dispatch_blame [OF d] Cons.prems(2) e(1) Some obtain msg where
      "err = ErrorCalling rq msg"
      by (auto simp: issued_Accept)
    with e(2) show ?thesis by auto
  next
    case None
    with Cons.prems(1) d have rest: "recordsLoop a act zid name rset rs True w1 = (fl, w')"
      by (simp add: recordsLoop_step del: recordsLoop.simps)
    from recordsLoop_log [OF rest] obtain new2 where "calls w' = calls w1 @ new2" by blast
    from issued_trans [OF n1(1) this] have i: "issued w w' = new1 @ issued w1 w'" .
    from n1(2) None have "list_all snd new1" by (simp add: opLog_def failfast_ok)
    with i Cons.prems(2) have "(rq, False) \<in> set (issued w1 w')"
      by (auto simp: list_all_iff)
    with Cons.IH [OF rest] show ?thesis by blast
  qed
qed

lemma requestsLoop_blame:
  "requestsLoop h d zone reqs updated w = (fl, w') \<Longrightarrow>
   (rq, False) \<in> set (issued w w') \<Longrightarrow> \<exists>e. fl = Return (Some e) \<and> culprit e = Some rq"
proof (induction reqs arbitrary: updated w)
  case Nil
  then show ?case by (simp add: issued_def)
next
  case (Cons req reqs)
  obtain name0 rset where m: "MapToProvider d (ReqType req) (dnsset req) (Domain_hz zone) = (name0, rset)"
    by (cases "MapToProvider d (ReqType req) (dnsset req) (Domain_hz zone)")
  show ?case
  proof (cases "Records rset = []")
    case True
    with Cons.prems(1) m have "w' = w" by simp
    with Cons.prems(2) show ?thesis by (simp add: issued_def)
  next
    case False
    obtain fl1 w1 where r: "recordsLoop (access h) (Action req) (Id_hz zone) (AlignHostname d name0)
        rset (Records rset) updated w = (fl1, w1)"
      by (cases "recordsLoop (access h) (Action req) (Id_hz zone) (AlignHostname d name0)
        rset (Records rset) updated w")
    from recordsLoop_log [OF r] obtain new1 where
      n1: "calls w1 = calls w @ new1" "failfast (flow_ok fl1) new1"
      by blast
    show ?thesis
    proof (cases fl1)
      case (Return e)
      with Cons.prems(1) m False r have "fl = fl1" "w' = w1" by (simp_all add: Let_def)
      with recordsLoop_blame [OF r] Cons.prems(2) show ?thesis by simp
    next
      case (Fallthrough u)
      with Cons.prems(1) m False r have rest: "requestsLoop h d zone reqs u w1 = (fl, w')"
        by (simp add: Let_def)
      from requestsLoop_log [OF rest] obtain new2 where "calls w' = calls w1 @ new2" by blast
      from issued_trans [OF n1(1) this] have i: "issued w w' = new1 @ issued w1 w'" .
      from n1(2) Fallthrough have "list_all snd new1" by (simp add: failfast_ok)
      with i Cons.prems(2) have "(rq, False) \<in> set (issued w1 w')"
        by (auto simp: list_all_iff)
      with Cons.IH [OF rest] show ?thesis by blast
    qed
  qed
qed

lemma executeRequests_blame:
  assumes "executeRequests h d zone state reqs w = (res, w')"
    and "(rq, False) \<in> set (issued w w')"
  shows "\<exists>e. res = Some e \<and> culprit e = Some rq"
proof (cases "DryRun h")
  case True
  with assms(1) have "w' = w" by (simp add: executeRequests_def)
  with assms(2) show ?thesis by (simp add: issued_def)
next
  case False
  obtain fl w1 where l: "requestsLoop h d zone reqs False w = (fl, w1)"
    by (cases "requestsLoop h d zone reqs False w")
  from requestsLoop_log [OF l] obtain new1 where
    n1: "calls w1 = calls w @ new1" "failfast (flow_ok fl) new1"
    by blast
  show ?thesis
  proof (cases "fl = Fallthrough True")
    case nofresh: False
    with assms(1) False l have e: "w' = w1" "\<forall>e. fl = Return (Some e) \<longrightarrow> res = Some e"
      by (auto simp: executeRequests_def split: flow.splits)
    with requestsLoop_blame [OF l] assms(2) show ?thesis by auto
  next
    case True
    obtain r2 w2 where f: "refreshZone (access h) (Id_hz zone) (Accept w1) = (r2, w2)"
      by (cases "refreshZone (access h) (Id_hz zone) (Accept w1)")
    from refreshZone_log [OF f] have c2: "calls w2 = calls w1 @ [(POST_refresh (Id_hz zone), r2 = None)]"
      by (simp add: calls_Accept)
    from assms(1) False l True f have e: "w' = w2"
      by (auto simp: executeRequests_def split: option.splits)
    from n1(2) True have ok1: "list_all snd new1" by (simp add: failfast_ok)
    from tail_blame [OF n1(1) ok1 c2] assms(2) e have q: "rq = POST_refresh (Id_hz zone)" "r2 \<noteq> None"
      by simp_all
    then obtain err where err: "r2 = Some err" by auto
    with f have "\<exists>msg. err = ErrorCalling (POST_refresh (Id_hz zone)) msg"
      by (auto simp: refreshZone_def split: prod.splits sum.splits)
    with assms(1) False l True f err q show ?thesis
      by (auto simp: executeRequests_def)
  qed
qed

subsection \<open>Runs of the change executor on the concrete store\<close>

lemma run_first_fails:
  "executeRequests (storeHandler False) plainDns exampleZone Map.empty
     [change R_CREATE ''A'' ''api'' 300 [''5.6.7.8''], change R_CREATE ''A'' ''www'' 300 [''1.2.3.4'']]
     (world0 [] [POST_record ''example.com'' apiBody])
   = (Some (CreateFailed ''example.com''
             (ErrorCalling (POST_record ''example.com'' apiBody) ''unavailable'')),
      worldAt [] [POST_record ''example.com'' apiBody]
        [(POST_record ''example.com'' apiBody, False)] 2)"
  by (simp add: executeRequests_def store_defs access_defs body_defs worldAt_def Let_def)

lemma run_second_value_fails:
  "executeRequests (storeHandler False) plainDns exampleZone Map.empty
     [change R_CREATE ''A'' ''www'' 300 [''1.2.3.4'', ''1.2.3.5''],
      change R_CREATE ''A'' ''api'' 300 [''5.6.7.8'']]
     (world0 [] [POST_record ''example.com'' wwwBody2])
   = (Some (CreateFailed ''example.com''
             (ErrorCalling (POST_record ''example.com'' wwwBody2) ''unavailable'')),
      worldAt [rec 1 ''A'' ''www'' ''1.2.3.4'' 300 ''example.com'']
        [POST_record ''example.com'' wwwBody2]
        [(POST_record ''example.com'' wwwBody, True),
         (POST_record ''example.com'' wwwBody2, False)] 4)"
  by (simp add: executeRequests_def store_defs access_defs body_defs worldAt_def Let_def)

lemma run_lookup_fails:
  "executeRequests (storeHandler False) plainDns exampleZone Map.empty
     [change R_CREATE ''A'' ''www'' 300 [''1.2.3.4''],
      change R_UPDATE ''A'' ''api'' 60 [''5.6.7.8'']]
     (world0 [] [apiListing])
   = (Some (UpdateFailed ''example.com'' (ErrorCalling apiListing ''unavailable'')),
      worldAt [rec 1 ''A'' ''www'' ''1.2.3.4'' 300 ''example.com''] [apiListing]
        [(POST_record ''example.com'' wwwBody, True), (apiListing, False)] 4)"
  by (simp add: executeRequests_def store_defs access_defs body_defs worldAt_def Let_def)


lemma run_create:
  "executeRequests (storeHandler False) plainDns exampleZone Map.empty
     [change R_CREATE ''A'' ''www'' 300 [''1.2.3.4'']] (world0 [] [])
   = (None, worldAt [rec 1 ''A'' ''www'' ''1.2.3.4'' 300 ''example.com''] []
        [(POST_record ''example.com'' wwwBody, True), (POST_refresh ''example.com'', True)] 4)"
  by (simp add: executeRequests_def store_defs access_defs body_defs worldAt_def Let_def)

subsection \<open>A failed call ends the batch\<close>

text \<open>
  C1, as the code has it. Every failed call is followed by \<^verbatim>\<open>return nil, fmt.Errorf(...)\<close>:
  when a remote call of \<^verbatim>\<open>executeRequests\<close> fails, it is the last call issued, every
  call before it succeeded, and \<^verbatim>\<open>executeRequests\<close> returns the error of that call
  (the first and only error encountered). The remaining records and requests of the batch
  are not attempted.
\<close>

theorem executeRequests_stops_at_first_failure:
  assumes "executeRequests h d zone state reqs w = (res, w')"
    and "issued w w' = pre @ (rq, False) # post"
  shows "post = [] \<and> list_all snd pre \<and> (\<exists>e. res = Some e \<and> culprit e = Some rq)"
proof -
  from executeRequests_log [OF assms(1)] obtain new where
    n: "calls w' = calls w @ new" "failfast (res = None) new"
    by blast
  from n(1) assms(2) have new: "new = pre @ (rq, False) # post"
    by (simp add: issued_def)
  have post: "post = []"
  proof (rule ccontr)
    assume "post \<noteq> []"
    then have "butlast new = pre @ (rq, False) # butlast post"
      by (simp add: new butlast_append)
    with n(2) show False by (simp add: failfast_def)
  qed
  from assms(2) have "(rq, False) \<in> set (issued w w')" by simp
  with executeRequests_blame [OF assms(1)] have "\<exists>e. res = Some e \<and> culprit e = Some rq"
    by blast
  moreover from n(2) new post have "list_all snd pre" by (simp add: failfast_def)
  ultimately show ?thesis using post by simp
qed

theorem executeRequests_stops_at_first_failure_witness:
  "executeRequests (storeHandler False) plainDns exampleZone Map.empty
     [change R_CREATE ''A'' ''www'' 300 [''1.2.3.4'', ''1.2.3.5''],
      change R_CREATE ''A'' ''api'' 300 [''5.6.7.8'']]
     (world0 [] [POST_record ''example.com'' wwwBody2])
   = (Some (CreateFailed ''example.com''
             (ErrorCalling (POST_record ''example.com'' wwwBody2) ''unavailable'')),
      worldAt [rec 1 ''A'' ''www'' ''1.2.3.4'' 300 ''example.com'']
        [POST_record ''example.com'' wwwBody2]
        [(POST_record ''example.com'' wwwBody, True),
         (POST_record ''example.com'' wwwBody2, False)] 4)
   \<and> issued (world0 [] [POST_record ''example.com'' wwwBody2])
        (worldAt [rec 1 ''A'' ''www'' ''1.2.3.4'' 300 ''example.com'']
           [POST_record ''example.com'' wwwBody2]
           [(POST_record ''example.com'' wwwBody, True),
            (POST_record ''example.com'' wwwBody2, False)] 4)
      = [(POST_record ''example.com'' wwwBody, True)]
          @ (POST_record ''example.com'' wwwBody2, False) # []
   \<and> list_all snd [(POST_record ''example.com'' wwwBody, True)]
   \<and> culprit (CreateFailed ''example.com''
                 (ErrorCalling (POST_record ''example.com'' wwwBody2) ''unavailable''))
       = Some (POST_record ''example.com'' wwwBody2)"
proof -
  have i: "issued (world0 [] [POST_record ''example.com'' wwwBody2])
        (worldAt [rec 1 ''A'' ''www'' ''1.2.3.4'' 300 ''example.com'']
           [POST_record ''example.com'' wwwBody2]
           [(POST_record ''example.com'' wwwBody, True),
            (POST_record ''example.com'' wwwBody2, False)] 4)
      = [(POST_record ''example.com'' wwwBody, True)]
          @ (POST_record ''example.com'' wwwBody2, False) # []"
    by (simp add: issued_world0)
  from executeRequests_stops_at_first_failure [OF run_second_value_fails i]
    run_second_value_fails i
  show ?thesis by simp
qed

text \<open>
  The claim C1 as stated fails: with two create requests, of which the first one's POST
  call fails, the log holds that one call; the POST call of the second request is never
  issued.
\<close>

theorem first_failure_aborts_counterexample:
  "executeRequests (storeHandler False) plainDns exampleZone Map.empty
     [change R_CREATE ''A'' ''api'' 300 [''5.6.7.8''], change R_CREATE ''A'' ''www'' 300 [''1.2.3.4'']]
     (world0 [] [POST_record ''example.com'' apiBody])
   = (Some (CreateFailed ''example.com''
             (ErrorCalling (POST_record ''example.com'' apiBody) ''unavailable'')),
      worldAt [] [POST_record ''example.com'' apiBody]
        [(POST_record ''example.com'' apiBody, False)] 2)
   \<and> POST_record ''example.com'' wwwBody
       \<notin> fst ` set (issued (world0 [] [POST_record ''example.com'' apiBody])
            (worldAt [] [POST_record ''example.com'' apiBody]
               [(POST_record ''example.com'' apiBody, False)] 2))"
  using run_first_fails by (simp add: issued_world0 body_defs rec_def)

subsection \<open>The refresh\<close>

text \<open>
  C9. When a call of the batch other than the refresh fails, or when
  \<^verbatim>\<open>executeRequests\<close> returns any error but the one of a failed refresh, then an error
  is returned and no refresh call has been issued, whatever writes succeeded before.
\<close>

theorem executeRequests_no_refresh_on_error:
  assumes "executeRequests h d zone state reqs w = (res, w')"
    and "((rq, False) \<in> set (issued w w') \<and> \<not> isRefresh rq)
         \<or> (\<exists>e. res = Some e \<and> \<not> refreshError e)"
  shows "res \<noteq> None \<and> filter (isRefresh \<circ> fst) (issued w w') = []"
proof -
  from executeRequests_log [OF assms(1)] obtain new where
    n: "calls w' = calls w @ new" "failfast (res = None) new"
       "list_all (\<lambda>c. \<not> isRefresh (fst c)) new
        \<or> (\<exists>pre ok. new = pre @ [(POST_refresh (Id_hz zone), ok)] \<and> pre \<noteq> []
              \<and> list_all snd pre \<and> list_all (\<lambda>c. \<not> isRefresh (fst c)) pre)"
    by blast
  from n(1) have i: "issued w w' = new" by (simp add: issued_def)
  from assms(2) show ?thesis
  proof
    assume a: "(rq, False) \<in> set (issued w w') \<and> \<not> isRefresh rq"
    with i have m: "(rq, False) \<in> set new" by simp
    with n(2) have r: "res \<noteq> None" by (auto dest: failfast_failed)
    from n(3) have "list_all (\<lambda>c. \<not> isRefresh (fst c)) new"
    proof
      assume "\<exists>pre ok. new = pre @ [(POST_refresh (Id_hz zone), ok)] \<and> pre \<noteq> []
              \<and> list_all snd pre \<and> list_all (\<lambda>c. \<not> isRefresh (fst c)) pre"
      then obtain pre ok where p: "new = pre @ [(POST_refresh (Id_hz zone), ok)]" "list_all snd pre"
        by blast
      with m a have False by (auto simp: list_all_iff)
      then show ?thesis ..
    qed
    with r i show ?thesis by (simp add: no_refresh_filter)
  next
    assume "\<exists>e. res = Some e \<and> \<not> refreshError e"
    then obtain e where e: "res = Some e" "\<not> refreshError e" by blast
    from executeRequests_error [OF assms(1) [unfolded e(1)] e(2)] obtain w0 where
      l: "requestsLoop h d zone reqs False w0 = (Return (Some e), w')" "calls w0 = calls w"
      by blast
    from requestsLoop_log [OF l(1)] l(2) n(1) have "list_all (\<lambda>c. \<not> isRefresh (fst c)) new"
      by auto
    with e i show ?thesis by (simp add: no_refresh_filter)
  qed
qed

theorem executeRequests_no_refresh_on_error_witness:
  "executeRequests (storeHandler False) plainDns exampleZone Map.empty
     [change R_CREATE ''A'' ''www'' 300 [''1.2.3.4''],
      change R_UPDATE ''A'' ''api'' 60 [''5.6.7.8'']]
     (world0 [] [apiListing])
   = (Some (UpdateFailed ''example.com'' (ErrorCalling apiListing ''unavailable'')),
      worldAt [rec 1 ''A'' ''www'' ''1.2.3.4'' 300 ''example.com''] [apiListing]
        [(POST_record ''example.com'' wwwBody, True), (apiListing, False)] 4)
   \<and> (POST_record ''example.com'' wwwBody, True)
        \<in> set (issued (world0 [] [apiListing])
            (worldAt [rec 1 ''A'' ''www'' ''1.2.3.4'' 300 ''example.com''] [apiListing]
               [(POST_record ''example.com'' wwwBody, True), (apiListing, False)] 4))
   \<and> (apiListing, False)
        \<in> set (issued (world0 [] [apiListing])
            (worldAt [rec 1 ''A'' ''www'' ''1.2.3.4'' 300 ''example.com''] [apiListing]
               [(POST_record ''example.com'' wwwBody, True), (apiListing, False)] 4))
   \<and> \<not> isRefresh apiListing
   \<and> filter (isRefresh \<circ> fst)
        (issued (world0 [] [apiListing])
            (worldAt [rec 1 ''A'' ''www'' ''1.2.3.4'' 300 ''example.com''] [apiListing]
               [(POST_record ''example.com'' wwwBody, True), (apiListing, False)] 4)) = []"
proof -
  have h: "((apiListing, False)
        \<in> set (issued (world0 [] [apiListing])
            (worldAt [rec 1 ''A'' ''www'' ''1.2.3.4'' 300 ''example.com''] [apiListing]
               [(POST_record ''example.com'' wwwBody, True), (apiListing, False)] 4))
       \<and> \<not> isRefresh apiListing)
     \<or> (\<exists>e. Some (UpdateFailed ''example.com'' (ErrorCalling apiListing ''unavailable'')) = Some e
            \<and> \<not> refreshError e)"
    by (simp add: issued_world0 apiListing_def)
  from executeRequests_no_refresh_on_error [OF run_lookup_fails h] run_lookup_fails
  show ?thesis by (simp add: issued_world0 apiListing_def)
qed

















subsection \<open>A request with no records\<close>

text \<open>
  C3. A change request whose mapped record set has no records is followed, in the claim,
  by the processing of the later requests. In the code the bare \<^verbatim>\<open>return\<close> leaves
  \<^verbatim>\<open>executeRequests\<close>: with an empty request before a create request for \<open>www\<close>,
  the result is nil in the unchanged world, and the POST call for \<open>www\<close> is not issued.
\<close>

theorem empty_record_set_returns_early:
  "executeRequests (storeHandler False) plainDns exampleZone Map.empty
     [change R_CREATE ''A'' ''api'' 300 [],
      change R_CREATE ''A'' ''www'' 300 [''1.2.3.4'']] (world0 [] [])
   = (None, world0 [] [])"
  by (simp add: executeRequests_def store_defs access_defs Let_def)

subsection \<open>Deleting among records with the same target\<close>

text \<open>
  The loop of \<^verbatim>\<open>getRecordSet\<close> returns the first record, in listing order, whose
  target is the requested value.
\<close>

lemma firstWithTarget_Some:
  "firstWithTarget val records = Some r \<Longrightarrow>
   \<exists>k<length records. records ! k = r \<and> Target r = val \<and> (\<forall>j<k. Target (records ! j) \<noteq> val)"
proof (induction records)
  case Nil
  then show ?case by simp
next
  case (Cons x records)
  show ?case
  proof (cases "Target x = val")
    case True
    with Cons.prems have "x = r" by simp
    with True have "(x # records) ! 0 = r \<and> Target r = val \<and> (\<forall>j<0. Target ((x # records) ! j) \<noteq> val)"
      by simp
    then show ?thesis by blast
  next
    case False
    with Cons.prems have "firstWithTarget val records = Some r" by simp
    from Cons.IH [OF this] obtain k where
      k: "k < length records" "records ! k = r" "Target r = val" "\<forall>j<k. Target (records ! j) \<noteq> val"
      by blast
    have "\<forall>j<Suc k. Target ((x # records) ! j) \<noteq> val"
      using False k(4) by (auto simp: less_Suc_eq_0_disj)
    with k have "Suc k < length (x # records) \<and> (x # records) ! Suc k = r \<and> Target r = val
        \<and> (\<forall>j<Suc k. Target ((x # records) ! j) \<noteq> val)"
      by simp
    then show ?thesis by blast
  qed
qed

text \<open>
  As the code is written no call of \<^verbatim>\<open>deleteRecordSet\<close> issues a DELETE call: the
  lookup either fails or returns no record.
\<close>

lemma reads_no_delete:
  "list_all (isRead \<circ> fst) new \<Longrightarrow> filter isDelete (map fst new) = []"
  by (auto simp: filter_empty_conv list_all_iff dest: isRead_not_write)

lemma deleteRecordSet_never_deletes:
  assumes "deleteRecordSet a zone subDomain val fieldType w = (res, w')"
  shows "filter isDelete (map fst (issued w w')) = []"
proof -
  obtain r1 w1 where g: "getRecordSet a zone subDomain val fieldType w = (r1, w1)"
    by (cases "getRecordSet a zone subDomain val fieldType w")
  from getRecordSet_log [OF g] obtain new1 where
    n1: "calls w1 = calls w @ new1" "list_all (isRead \<circ> fst) new1"
    by blast
  have "w' = w1"
  proof (cases r1)
    case (Inl err)
    with assms g show ?thesis by (simp add: deleteRecordSet_def)
  next
    case (Inr found)
    with getRecordSet_Inr g have "found = None" by blast
    with assms g Inr show ?thesis by (simp add: deleteRecordSet_def)
  qed
  with n1 show ?thesis by (simp add: issued_def reads_no_delete)
qed

text \<open>
  C10. Of several records with the same sub-domain, type and target, the first in
  listing order should be deleted, and only that one. In the zone whose \<open>www\<close>
  address records are 9.9.9.9 (id 1), 1.2.3.4 (id 2) and 1.2.3.4 (id 3), the delete of
  1.2.3.4 lists the record set, is refused the fetch of the first listed record (the path
  formatted with \<^verbatim>\<open>%i\<close>) and returns that error: no record is deleted.
\<close>

theorem delete_duplicate_target_fails:
  "deleteRecordSet storeClient ''example.com'' ''www'' ''1.2.3.4'' ''A'' (world0 wwwTwice [])
     = (Some (ErrorCalling (GET_record_malformed ''example.com'' 1) invalidURLEscape),
        worldAt wwwTwice []
          [(GET_records ''example.com'' ''A'' ''www'', True),
           (GET_record_malformed ''example.com'' 1, False)] 2)"
  by (simp add: store_defs access_defs worldAt_def wwwTwice_def)

subsection \<open>Forwarded names of a zone\<close>


lemma recordName_not_apex: "Zone r = Name z \<Longrightarrow> recordName r \<noteq> Name z"
  using append_self_conv2 [of "SubDomain r @ ''.''" "Name z"] by (simp add: recordName_def)








subsection \<open>The zone state\<close>

text \<open>
  The record set the callback builds has the type and TTL of the delivered one and its
  values in order, each normalized when the type is CNAME; the collection holds, at a
  name and type, the record set built from the last delivered set of that name and type.
\<close>

lemma addValues_eq:
  "addValues d rtype vals rs
     = rs\<lparr>Records := Records rs
            @ map (\<lambda>v. \<lparr>Value = (if rtype = RS_CNAME then NormalizeHostname d v else v)\<rparr>) vals\<rparr>"
  by (induction vals arbitrary: rs) (simp_all add: RecordSet_Add_def Let_def)

lemma converted_eq:
  "converted d recordSet
     = \<lparr>Type = rs_Type recordSet, TTL = rs_TTL recordSet,
        Records = map (\<lambda>v. \<lparr>Value = (if rs_Type recordSet = RS_CNAME
                                         then NormalizeHostname d v else v)\<rparr>)
                    (rs_Records recordSet)\<rparr>"
  by (simp add: converted_def addValues_eq NewRecordSet_def)

lemma stored_empty: "stored Map.empty name rtype = None"
  by (simp add: stored_def)

lemma stored_Add:
  "stored (AddRecordSetFromProvider d dnssets dnsName rs) name rtype
     = (if name = NormalizeHostname d dnsName \<and> rtype = Type rs then Some rs
        else stored dnssets name rtype)"
  by (auto simp: stored_def AddRecordSetFromProvider_def Let_def split: option.splits)

lemma stored_handler:
  "stored (recordSetHandler d recordSet dnssets) name rtype
     = (if (rs_Type recordSet = RS_A \<or> rs_Type recordSet = RS_CNAME \<or> rs_Type recordSet = RS_TXT)
           \<and> name = NormalizeHostname d (rs_Name recordSet) \<and> rtype = rs_Type recordSet
        then Some (converted d recordSet)
        else stored dnssets name rtype)"
proof -
  have t: "Type (converted d recordSet) = rs_Type recordSet" by (simp add: converted_eq)
  show ?thesis
    using t by (simp add: recordSetHandler_def Let_def stored_Add converted_def [symmetric])
qed

lemma ForEachRecordSet_snoc:
  "ForEachRecordSet handler (sets @ [recordSet]) dnssets
     = handler recordSet (ForEachRecordSet handler sets dnssets)"
  by (induction sets arbitrary: dnssets) simp_all

lemma stored_ForEachRecordSet:
  "stored (ForEachRecordSet (recordSetHandler d) sets Map.empty) name rtype
     = (case filter (\<lambda>r. rs_Type r = rtype \<and> NormalizeHostname d (rs_Name r) = name) (rev sets) of
          [] \<Rightarrow> None
        | recordSet # _ \<Rightarrow>
            if rtype = RS_A \<or> rtype = RS_CNAME \<or> rtype = RS_TXT
            then Some (converted d recordSet) else None)"
proof (induction sets rule: rev_induct)
  case Nil
  then show ?case by (simp add: stored_empty)
next
  case (snoc x xs)
  show ?case
  proof (cases "rs_Type x = rtype \<and> NormalizeHostname d (rs_Name x) = name")
    case True
    show ?thesis
    proof (cases "rtype = RS_A \<or> rtype = RS_CNAME \<or> rtype = RS_TXT")
      case supported: True
      with True show ?thesis by (auto simp: ForEachRecordSet_snoc stored_handler)
    next
      case unsupported: False
      with True have "stored (recordSetHandler d x (ForEachRecordSet (recordSetHandler d) xs Map.empty)) name rtype
          = stored (ForEachRecordSet (recordSetHandler d) xs Map.empty) name rtype"
        by (auto simp: stored_handler)
      also have "\<dots> = None" using unsupported by (simp add: snoc.IH split: list.splits)
      finally show ?thesis using True unsupported by (simp add: ForEachRecordSet_snoc)
    qed
  next
    case False
    then have "stored (recordSetHandler d x (ForEachRecordSet (recordSetHandler d) xs Map.empty)) name rtype
          = stored (ForEachRecordSet (recordSetHandler d) xs Map.empty) name rtype"
      by (auto simp: stored_handler)
    with False show ?thesis by (auto simp: ForEachRecordSet_snoc snoc.IH)
  qed
qed

text \<open>
  C7. In the collection \<^verbatim>\<open>getZoneState\<close> returns, the record set at a name and
  type is exactly this: nothing when the type is not A, CNAME or TXT, or when no record
  set of that type was delivered under that (normalized) name; otherwise the record set
  with the TTL and the values of the last such delivered set, every value normalized by
  \<^verbatim>\<open>NormalizeHostname\<close> when the type is CNAME and unchanged when it is A or TXT.
\<close>

theorem getZoneState_exact:
  assumes "getZoneState h d zone w = (Inr state, w')"
  shows "stored state name rtype
           = (case filter (\<lambda>r. rs_Type r = rtype \<and> NormalizeHostname d (rs_Name r) = name)
                    (rev (fst (fst (Enumerate h (remote w) (Id_hz zone))))) of
                [] \<Rightarrow> None
              | recordSet # _ \<Rightarrow>
                  if rtype = RS_A \<or> rtype = RS_CNAME \<or> rtype = RS_TXT
                  then Some \<lparr>Type = rtype, TTL = rs_TTL recordSet,
                             Records = map (\<lambda>v. \<lparr>Value = (if rtype = RS_CNAME
                                                              then NormalizeHostname d v else v)\<rparr>)
                                         (rs_Records recordSet)\<rparr>
                  else None)"
proof -
  let ?sets = "fst (fst (Enumerate h (remote w) (Id_hz zone)))"
  from assms have s: "state = ForEachRecordSet (recordSetHandler d) ?sets Map.empty"
    by (auto simp: getZoneState_def Let_def remote_Accept split: prod.splits option.splits)
  show ?thesis
    unfolding s stored_ForEachRecordSet
    by (auto simp: converted_eq split: list.splits dest: filter_eq_ConsD)
qed

lemma run_getZoneState:
  "getZoneState (storeHandler False) plainDns exampleZone mixedWorld
     = (Inr mixedState, mixedWorld\<lparr>accepts := 1\<rparr>)"
  by (simp add: getZoneState_def store_defs mixedWorld_def mixedState_def wwwSet_def apiSet_def
      recordSetHandler_def AddRecordSetFromProvider_def NewRecordSet_def RecordSet_Add_def
      RS_A_def RS_CNAME_def RS_TXT_def Accept_def Let_def)

text \<open>
  The zone with an MX, a CNAME, an A and a TXT record: the TXT and A values are stored
  as delivered (the TXT value keeps its final dot), the CNAME value is normalized, and
  nothing is stored for the MX record.
\<close>

theorem getZoneState_exact_witness:
  "getZoneState (storeHandler False) plainDns exampleZone mixedWorld
     = (Inr mixedState, mixedWorld\<lparr>accepts := 1\<rparr>)
   \<and> stored mixedState ''api.example.com'' ''TXT''
       = Some \<lparr>Type = ''TXT'', TTL = 60, Records = [\<lparr>Value = ''v=spf1 -all.''\<rparr>]\<rparr>
   \<and> stored mixedState ''api.example.com'' ''A''
       = Some \<lparr>Type = ''A'', TTL = 300, Records = [\<lparr>Value = ''1.2.3.4''\<rparr>]\<rparr>
   \<and> stored mixedState ''www.example.com'' ''CNAME''
       = Some \<lparr>Type = ''CNAME'', TTL = 300, Records = [\<lparr>Value = ''foo.example.net''\<rparr>]\<rparr>
   \<and> stored mixedState ''.example.com'' ''MX'' = None"
  using getZoneState_exact [OF run_getZoneState, of "''api.example.com''" "''TXT''"]
    getZoneState_exact [OF run_getZoneState, of "''api.example.com''" "''A''"]
    getZoneState_exact [OF run_getZoneState, of "''www.example.com''" "''CNAME''"]
    getZoneState_exact [OF run_getZoneState, of "''.example.com''" "''MX''"]
    run_getZoneState
  by (simp add: store_defs mixedWorld_def RS_A_def RS_CNAME_def RS_TXT_def)

end
